theory Spec2Isabelle
  imports Complex_Main "HOL-Library.Word"
begin

section \<open>The common header: messages, serialization, heap blocks\<close>

text \<open>
  The header \<^verbatim>\<open>MT25033_Part_A_Common.h\<close> builds a message of eight heap-allocated
  fields and serializes it into one contiguous buffer. The C heap is modelled as a list of
  blocks: \<^verbatim>\<open>malloc\<close> appends a block (its address is its index, so it is fresh by
  construction) or returns \<^verbatim>\<open>NULL\<close>, \<^verbatim>\<open>free\<close> empties the slot. Whether an
  allocation succeeds is decided by the environment, so every allocating function takes the
  outcome of each of its \<^verbatim>\<open>malloc\<close> calls as a parameter. A byte of a buffer is
  \<open>None\<close> while it is indeterminate (never written) and \<open>Some c\<close> once written.
  \<^verbatim>\<open>size_t\<close> is 64 bits wide; sizes are natural numbers with the wrap-around written out.
\<close>

definition NUM_FIELDS :: nat where
  "NUM_FIELDS = 8"

definition SIZE_MOD :: nat where
  "SIZE_MOD = 2 ^ 64"

type_synonym ptr = "nat option"

type_synonym bytes = "char option list"

record Message =
  field1 :: ptr
  field2 :: ptr
  field3 :: ptr
  field4 :: ptr
  field5 :: ptr
  field6 :: ptr
  field7 :: ptr
  field8 :: ptr

record SerializedMessage =
  total_size :: nat
  field_size :: nat
  data :: bytes

datatype block = Chars bytes | MessageB Message | SerializedB SerializedMessage

type_synonym heap = "block option list"

text \<open>\<^verbatim>\<open>sizeof(SerializedMessage)\<close>: two \<^verbatim>\<open>size_t\<close> members before the flexible array.\<close>

definition sizeof_SerializedMessage :: nat where
  "sizeof_SerializedMessage = 16"

definition malloc :: "bool \<Rightarrow> block \<Rightarrow> heap \<Rightarrow> ptr \<times> heap" where
  "malloc ok b h = (if ok then (Some (length h), h @ [Some b]) else (None, h))"

text \<open>\<^verbatim>\<open>free(NULL)\<close> does nothing.\<close>

definition free :: "ptr \<Rightarrow> heap \<Rightarrow> heap" where
  "free p h = (case p of None \<Rightarrow> h | Some a \<Rightarrow> h[a := None])"

text \<open>The addresses of the blocks that are allocated and not yet freed.\<close>

definition live :: "heap \<Rightarrow> nat list" where
  "live h = filter (\<lambda>a. h ! a \<noteq> None) [0..<length h]"

definition load_chars :: "heap \<Rightarrow> ptr \<Rightarrow> bytes" where
  "load_chars h p =
     (case p of
        None \<Rightarrow> []
      | Some a \<Rightarrow>
          if a < length h then (case h ! a of Some (Chars bs) \<Rightarrow> bs | _ \<Rightarrow> []) else [])"

definition load_message :: "heap \<Rightarrow> ptr \<Rightarrow> Message option" where
  "load_message h p =
     (case p of
        None \<Rightarrow> None
      | Some a \<Rightarrow>
          if a < length h then (case h ! a of Some (MessageB m) \<Rightarrow> Some m | _ \<Rightarrow> None)
          else None)"

definition load_serialized :: "heap \<Rightarrow> ptr \<Rightarrow> SerializedMessage option" where
  "load_serialized h p =
     (case p of
        None \<Rightarrow> None
      | Some a \<Rightarrow>
          if a < length h then (case h ! a of Some (SerializedB s) \<Rightarrow> Some s | _ \<Rightarrow> None)
          else None)"

text \<open>
  \<^verbatim>\<open>memset(p, c, n)\<close> on a character buffer: the first \<open>n\<close> bytes become \<open>c\<close>. The
  source only calls it on the non-null fields of a message, each of size \<open>n\<close>.
\<close>

definition memset :: "ptr \<Rightarrow> char \<Rightarrow> nat \<Rightarrow> heap \<Rightarrow> heap" where
  "memset p c n h =
     (case p of
        None \<Rightarrow> h
      | Some a \<Rightarrow>
          if a < length h then
            (case h ! a of
               Some (Chars bs) \<Rightarrow> h[a := Some (Chars (replicate n (Some c) @ drop n bs))]
             | _ \<Rightarrow> h)
          else h)"

text \<open>
  \<^verbatim>\<open>memcpy(dst + off, src, n)\<close> into a byte area: \<open>n\<close> bytes of \<open>src\<close> replace the
  bytes of \<open>dst\<close> from offset \<open>off\<close> on.
\<close>

definition memcpy :: "bytes \<Rightarrow> nat \<Rightarrow> bytes \<Rightarrow> nat \<Rightarrow> bytes" where
  "memcpy dst off src n = take off dst @ take n src @ drop (off + n) dst"

text \<open>
  \<^verbatim>\<open>create_message(field_size)\<close>. \<open>a 0\<close> is the outcome of the allocation of the
  \<^verbatim>\<open>Message\<close> record, \<open>a 1\<close> to \<open>a 8\<close> the outcomes of the eight field allocations (all
  eight are attempted before any is checked). On a failed field the source frees the eight
  field pointers (null or not) and the record, and returns \<^verbatim>\<open>NULL\<close>. The eight
  pointers are stored into the record in one step after the eight allocations; nothing
  reads the record in between.
\<close>

definition create_message :: "(nat \<Rightarrow> bool) \<Rightarrow> nat \<Rightarrow> heap \<Rightarrow> ptr \<times> heap" where
  "create_message a fs h =
     (case malloc (a 0) (MessageB \<lparr>field1 = None, field2 = None, field3 = None, field4 = None,
                                  field5 = None, field6 = None, field7 = None, field8 = None\<rparr>) h of
        (None, h0) \<Rightarrow> (None, h0)
      | (Some m, h0) \<Rightarrow>
          (let (f1, h1) = malloc (a 1) (Chars (replicate fs None)) h0;
               (f2, h2) = malloc (a 2) (Chars (replicate fs None)) h1;
               (f3, h3) = malloc (a 3) (Chars (replicate fs None)) h2;
               (f4, h4) = malloc (a 4) (Chars (replicate fs None)) h3;
               (f5, h5) = malloc (a 5) (Chars (replicate fs None)) h4;
               (f6, h6) = malloc (a 6) (Chars (replicate fs None)) h5;
               (f7, h7) = malloc (a 7) (Chars (replicate fs None)) h6;
               (f8, h8) = malloc (a 8) (Chars (replicate fs None)) h7;
               h9 = h8[m := Some (MessageB \<lparr>field1 = f1, field2 = f2, field3 = f3, field4 = f4,
                                            field5 = f5, field6 = f6, field7 = f7, field8 = f8\<rparr>)]
           in if f1 = None \<or> f2 = None \<or> f3 = None \<or> f4 = None \<or>
                 f5 = None \<or> f6 = None \<or> f7 = None \<or> f8 = None
              then
                (None,
                 free (Some m) (free f8 (free f7 (free f6 (free f5
                   (free f4 (free f3 (free f2 (free f1 h9)))))))))
              else
                (Some m,
                 memset f8 CHR ''H'' fs (memset f7 CHR ''G'' fs (memset f6 CHR ''F'' fs
                   (memset f5 CHR ''E'' fs (memset f4 CHR ''D'' fs (memset f3 CHR ''C'' fs
                     (memset f2 CHR ''B'' fs (memset f1 CHR ''A'' fs h9))))))))))"

text \<open>\<^verbatim>\<open>free_message(msg)\<close>.\<close>

definition free_message :: "ptr \<Rightarrow> heap \<Rightarrow> heap" where
  "free_message p h =
     (case load_message h p of
        None \<Rightarrow> h
      | Some msg \<Rightarrow>
          free p (free (field8 msg) (free (field7 msg) (free (field6 msg) (free (field5 msg)
            (free (field4 msg) (free (field3 msg) (free (field2 msg) (free (field1 msg) h)))))))))"

text \<open>
  \<^verbatim>\<open>serialize_message(msg, field_size)\<close>; \<open>ok\<close> is the outcome of its one allocation.
  The data area of the allocated block has \<open>total_size - sizeof(SerializedMessage)\<close> bytes.
\<close>

definition serialize_message :: "bool \<Rightarrow> ptr \<Rightarrow> nat \<Rightarrow> heap \<Rightarrow> ptr \<times> heap" where
  "serialize_message ok msg fs h =
     (let total_data_size = (NUM_FIELDS * fs) mod SIZE_MOD;
          total_sz = (sizeof_SerializedMessage + total_data_size) mod SIZE_MOD
      in case malloc ok (SerializedB \<lparr>total_size = 0, field_size = 0,
                           data = replicate (total_sz - sizeof_SerializedMessage) None\<rparr>) h of
           (None, h0) \<Rightarrow> (None, h0)
         | (Some s, h0) \<Rightarrow>
             (case load_message h0 msg of
                None \<Rightarrow> (Some s, h0)
              | Some m \<Rightarrow>
                 (let d0 = replicate (total_sz - sizeof_SerializedMessage) None;
                      d1 = memcpy d0 0 (load_chars h0 (field1 m)) fs;
                      d2 = memcpy d1 fs (load_chars h0 (field2 m)) fs;
                      d3 = memcpy d2 (2 * fs) (load_chars h0 (field3 m)) fs;
                      d4 = memcpy d3 (3 * fs) (load_chars h0 (field4 m)) fs;
                      d5 = memcpy d4 (4 * fs) (load_chars h0 (field5 m)) fs;
                      d6 = memcpy d5 (5 * fs) (load_chars h0 (field6 m)) fs;
                      d7 = memcpy d6 (6 * fs) (load_chars h0 (field7 m)) fs;
                      d8 = memcpy d7 (7 * fs) (load_chars h0 (field8 m)) fs
                  in (Some s, h0[s := Some (SerializedB \<lparr>total_size = total_data_size,
                                                        field_size = fs, data = d8\<rparr>)]))))"

text \<open>
  \<^verbatim>\<open>calc_throughput_gbps(bytes, seconds)\<close>; a \<^verbatim>\<open>double\<close> is modelled as a real number.
\<close>

definition calc_throughput_gbps :: "64 word \<Rightarrow> real \<Rightarrow> real" where
  "calc_throughput_gbps bytes seconds =
     (if seconds \<le> 0 then 0 else (real (unat bytes) * 8) / (seconds * 1000000000))"

record ServerThreadArgs =
  msg_size :: nat
  bytes_sent :: "64 word"
  messages_sent :: "64 word"
  elapsed_time :: real

record ClientThreadArgs =
  cl_msg_size :: nat
  bytes_received :: "64 word"
  messages_received :: "64 word"
  total_latency :: real
  cl_elapsed_time :: real

record Metrics =
  total_bytes :: "64 word"
  total_messages :: "64 word"
  total_time :: real
  throughput_gbps :: real
  avg_latency_us :: real

section \<open>The transport and the worker loops\<close>

text \<open>
  A transfer call returns a non-negative byte count, or \<open>-1\<close> with \<^verbatim>\<open>errno\<close> set.
  On Linux \<^verbatim>\<open>EWOULDBLOCK\<close> is the same number as \<^verbatim>\<open>EAGAIN\<close>; \<open>EOTHER\<close> stands for the
  error numbers the programs do not test for.
\<close>

datatype errno = EINTR | EPIPE | ECONNRESET | EAGAIN | ENOBUFS | EINVAL | EOTHER nat

definition EWOULDBLOCK :: errno where
  "EWOULDBLOCK = EAGAIN"

datatype call_result = Ret nat | Fail errno

datatype flags = NOFLAGS | MSG_ZEROCOPY

text \<open>
  The environment of a worker loop: \<open>tr k\<close> is the result of the \<open>k\<close>-th transfer call the
  worker issues (counted from 0), \<open>lat k\<close> the time \<^verbatim>\<open>msg_end - msg_start\<close> measured
  around it, and the budget \<open>n\<close> the number of times the loop condition
  \<^verbatim>\<open>running && get_time_sec() < end_time\<close> still holds. Each loop returns the number of
  calls it issued, its arguments record, and a ghost log with one entry per iteration: the
  calls of that iteration as (flags, requested length, result).
\<close>

type_synonym transport = "nat \<Rightarrow> call_result"

type_synonym call = "flags \<times> nat \<times> call_result"

text \<open>
  The receive loop of \<^verbatim>\<open>client_thread\<close>. The three clients have the same loop; they
  differ in the call (\<^verbatim>\<open>recv\<close> or \<^verbatim>\<open>recvmsg\<close>) and in the length they ask for.
\<close>

fun recv_loop ::
  "transport \<Rightarrow> (nat \<Rightarrow> real) \<Rightarrow> nat \<Rightarrow> nat \<Rightarrow> nat \<Rightarrow> call list list \<Rightarrow> ClientThreadArgs
     \<Rightarrow> nat \<times> call list list \<times> ClientThreadArgs" where
  "recv_loop tr lat len 0 k lg args = (k, lg, args)"
| "recv_loop tr lat len (Suc n) k lg args =
     (case tr k of
        Fail e \<Rightarrow>
          if e = EINTR then recv_loop tr lat len n (Suc k) (lg @ [[(NOFLAGS, len, tr k)]]) args
          else (Suc k, lg @ [[(NOFLAGS, len, tr k)]], args)
      | Ret received \<Rightarrow>
          if received = 0 then (Suc k, lg @ [[(NOFLAGS, len, tr k)]], args)
          else recv_loop tr lat len n (Suc k) (lg @ [[(NOFLAGS, len, tr k)]])
                 (args\<lparr>bytes_received := bytes_received args + of_nat received,
                       messages_received := messages_received args + 1,
                       total_latency := total_latency args + lat k\<rparr>))"

text \<open>
  The send loop of \<^verbatim>\<open>handle_client\<close> in the copy-based server (\<^verbatim>\<open>send\<close>) and in the
  scatter/gather server (\<^verbatim>\<open>sendmsg\<close> with flags 0). Both branches of the error test
  leave the loop; they differ in what is printed.
\<close>

fun send_loop ::
  "transport \<Rightarrow> nat \<Rightarrow> nat \<Rightarrow> nat \<Rightarrow> call list list \<Rightarrow> ServerThreadArgs
     \<Rightarrow> nat \<times> call list list \<times> ServerThreadArgs" where
  "send_loop tr len 0 k lg args = (k, lg, args)"
| "send_loop tr len (Suc n) k lg args =
     (case tr k of
        Fail e \<Rightarrow>
          if e = EPIPE \<or> e = ECONNRESET then (Suc k, lg @ [[(NOFLAGS, len, tr k)]], args)
          else (Suc k, lg @ [[(NOFLAGS, len, tr k)]], args)
      | Ret sent \<Rightarrow>
          send_loop tr len n (Suc k) (lg @ [[(NOFLAGS, len, tr k)]])
            (args\<lparr>bytes_sent := bytes_sent args + of_nat sent,
                  messages_sent := messages_sent args + 1\<rparr>))"

text \<open>
  One iteration's sending in the zero-copy server: with \<open>use_zerocopy\<close> the call carries
  \<^verbatim>\<open>MSG_ZEROCOPY\<close>, and a failure with \<^verbatim>\<open>ENOBUFS\<close> or \<^verbatim>\<open>EINVAL\<close> is followed by a
  second call with flags 0. The result is the value of \<^verbatim>\<open>sent\<close> (with the \<^verbatim>\<open>errno\<close> of
  the last call), the number of calls issued so far, and the calls of this iteration.
\<close>

definition zc_send :: "bool \<Rightarrow> transport \<Rightarrow> nat \<Rightarrow> nat \<Rightarrow> call_result \<times> nat \<times> call list" where
  "zc_send use_zerocopy tr len k =
     (if use_zerocopy then
        (case tr k of
           Fail e \<Rightarrow>
             if e = ENOBUFS \<or> e = EINVAL
             then (tr (Suc k), Suc (Suc k),
                   [(MSG_ZEROCOPY, len, tr k), (NOFLAGS, len, tr (Suc k))])
             else (tr k, Suc k, [(MSG_ZEROCOPY, len, tr k)])
         | Ret sent \<Rightarrow> (tr k, Suc k, [(MSG_ZEROCOPY, len, tr k)]))
      else (tr k, Suc k, [(NOFLAGS, len, tr k)]))"

fun zc_send_loop ::
  "bool \<Rightarrow> transport \<Rightarrow> nat \<Rightarrow> nat \<Rightarrow> nat \<Rightarrow> call list list \<Rightarrow> ServerThreadArgs
     \<Rightarrow> nat \<times> call list list \<times> ServerThreadArgs" where
  "zc_send_loop use_zerocopy tr len 0 k lg args = (k, lg, args)"
| "zc_send_loop use_zerocopy tr len (Suc n) k lg args =
     (case zc_send use_zerocopy tr len k of
        (Fail e, k', calls) \<Rightarrow>
          if e = EPIPE \<or> e = ECONNRESET then (k', lg @ [calls], args)
          else if e = EAGAIN \<or> e = EWOULDBLOCK
          then zc_send_loop use_zerocopy tr len n k' (lg @ [calls]) args
          else (k', lg @ [calls], args)
      | (Ret sent, k', calls) \<Rightarrow>
          zc_send_loop use_zerocopy tr len n k' (lg @ [calls])
            (args\<lparr>bytes_sent := bytes_sent args + of_nat sent,
                  messages_sent := messages_sent args + 1\<rparr>))"

section \<open>The server workers and the server's totals\<close>

text \<open>
  \<^verbatim>\<open>handle_client\<close> of the copy-based server. \<open>a\<close> and \<open>sa\<close> are the outcomes of the
  allocations of \<^verbatim>\<open>create_message\<close> and \<^verbatim>\<open>serialize_message\<close>, \<open>el\<close> is the elapsed
  time read after the loop. When an allocation fails the thread exits through
  \<^verbatim>\<open>pthread_exit\<close> and its arguments record is left as it was.
\<close>

definition A1_handle_client ::
  "(nat \<Rightarrow> bool) \<Rightarrow> bool \<Rightarrow> transport \<Rightarrow> nat \<Rightarrow> real \<Rightarrow> heap \<Rightarrow> ServerThreadArgs
     \<Rightarrow> call list list \<times> ServerThreadArgs" where
  "A1_handle_client a sa tr n el h args =
     (let fs = msg_size args div NUM_FIELDS
      in case create_message a fs h of
           (None, h1) \<Rightarrow> ([], args)
         | (Some m, h1) \<Rightarrow>
             (case serialize_message sa (Some m) fs h1 of
                (None, h2) \<Rightarrow> ([], args)
              | (Some s, h2) \<Rightarrow>
                  (case load_serialized h2 (Some s) of
                     None \<Rightarrow> ([], args)
                   | Some smsg \<Rightarrow>
                       (case send_loop tr (total_size smsg) n 0 []
                               (args\<lparr>bytes_sent := 0, messages_sent := 0\<rparr>) of
                          (k, lg, args') \<Rightarrow> (lg, args'\<lparr>elapsed_time := el\<rparr>)))))"

text \<open>
  The buffer-descriptor list of the scatter/gather and zero-copy servers, as (base, length)
  pairs, and the number of bytes one \<^verbatim>\<open>sendmsg\<close> over it asks for.
\<close>

definition message_iov :: "Message \<Rightarrow> nat \<Rightarrow> (ptr \<times> nat) list" where
  "message_iov m fs =
     [(field1 m, fs), (field2 m, fs), (field3 m, fs), (field4 m, fs),
      (field5 m, fs), (field6 m, fs), (field7 m, fs), (field8 m, fs)]"

definition iov_total :: "(ptr \<times> nat) list \<Rightarrow> nat" where
  "iov_total iov = sum_list (map snd iov)"

text \<open>\<^verbatim>\<open>handle_client\<close> of the scatter/gather server.\<close>

definition A2_handle_client ::
  "(nat \<Rightarrow> bool) \<Rightarrow> transport \<Rightarrow> nat \<Rightarrow> real \<Rightarrow> heap \<Rightarrow> ServerThreadArgs
     \<Rightarrow> call list list \<times> ServerThreadArgs" where
  "A2_handle_client a tr n el h args =
     (let fs = msg_size args div NUM_FIELDS
      in case create_message a fs h of
           (None, h1) \<Rightarrow> ([], args)
         | (Some m, h1) \<Rightarrow>
             (case load_message h1 (Some m) of
                None \<Rightarrow> ([], args)
              | Some msg \<Rightarrow>
                  (case send_loop tr (iov_total (message_iov msg fs)) n 0 []
                          (args\<lparr>bytes_sent := 0, messages_sent := 0\<rparr>) of
                     (k, lg, args') \<Rightarrow> (lg, args'\<lparr>elapsed_time := el\<rparr>))))"

text \<open>
  \<^verbatim>\<open>handle_client\<close> of the zero-copy server; \<open>zc_ok\<close> tells whether
  \<^verbatim>\<open>setsockopt(SO_ZEROCOPY)\<close> returned 0.
\<close>

definition A3_handle_client ::
  "bool \<Rightarrow> (nat \<Rightarrow> bool) \<Rightarrow> transport \<Rightarrow> nat \<Rightarrow> real \<Rightarrow> heap \<Rightarrow> ServerThreadArgs
     \<Rightarrow> call list list \<times> ServerThreadArgs" where
  "A3_handle_client zc_ok a tr n el h args =
     (let fs = msg_size args div NUM_FIELDS;
          use_zerocopy = zc_ok
      in case create_message a fs h of
           (None, h1) \<Rightarrow> ([], args)
         | (Some m, h1) \<Rightarrow>
             (case load_message h1 (Some m) of
                None \<Rightarrow> ([], args)
              | Some msg \<Rightarrow>
                  (case zc_send_loop use_zerocopy tr (iov_total (message_iov msg fs)) n 0 []
                          (args\<lparr>bytes_sent := 0, messages_sent := 0\<rparr>) of
                     (k, lg, args') \<Rightarrow> (lg, args'\<lparr>elapsed_time := el\<rparr>))))"

text \<open>
  The totals computed by the server's \<^verbatim>\<open>main\<close> after joining: a loop over the
  \<^verbatim>\<open>thread_args\<close> slots of all threads created.
\<close>

fun server_totals ::
  "ServerThreadArgs list \<Rightarrow> 64 word \<times> 64 word \<times> real \<Rightarrow> 64 word \<times> 64 word \<times> real" where
  "server_totals [] acc = acc"
| "server_totals (t # ts) (tot_bytes, tot_messages, max_time) =
     server_totals ts
       (tot_bytes + bytes_sent t, tot_messages + messages_sent t,
        if elapsed_time t > max_time then elapsed_time t else max_time)"

text \<open>
  The copy-based server's \<^verbatim>\<open>main\<close> from the accepted connections on. \<^verbatim>\<open>thread_args\<close>
  comes from \<^verbatim>\<open>malloc\<close>, so each slot starts with indeterminate content \<open>garbage\<close>;
  \<^verbatim>\<open>main\<close> writes \<^verbatim>\<open>msg_size\<close> (and the descriptor, id and duration, which the model
  does not need) and starts the worker on the slot. Each connection comes with its
  worker's environment.
\<close>

definition A1_server_main ::
  "nat \<Rightarrow> (ServerThreadArgs \<times> (nat \<Rightarrow> bool) \<times> bool \<times> transport \<times> nat \<times> real) list
     \<Rightarrow> 64 word \<times> 64 word \<times> real" where
  "A1_server_main sz conns =
     server_totals
       (map (\<lambda>(garbage, a, sa, tr, n, el).
               snd (A1_handle_client a sa tr n el [] (garbage\<lparr>msg_size := sz\<rparr>))) conns)
       (0, 0, 0)"

section \<open>The client workers and the client's summary\<close>

text \<open>What happens to a client thread before its loop.\<close>

datatype startup = SocketFailed | BadAddress | ConnectFailed | BufferAllocFailed | Ready

text \<open>
  \<^verbatim>\<open>client_thread\<close> from the connection on, with the length \<open>len\<close> its receive calls ask
  for. A thread that fails before the loop exits without touching its record or the global
  metrics. The update of \<^verbatim>\<open>global_metrics\<close> happens under \<^verbatim>\<open>metrics_mutex\<close>: the model
  runs it atomically on the global record \<open>g\<close>.
\<close>

definition client_thread_body ::
  "nat \<Rightarrow> startup \<Rightarrow> transport \<Rightarrow> (nat \<Rightarrow> real) \<Rightarrow> nat \<Rightarrow> real \<Rightarrow> ClientThreadArgs \<Rightarrow> Metrics
     \<Rightarrow> call list list \<times> ClientThreadArgs \<times> Metrics" where
  "client_thread_body len st tr lat n el args g =
     (if st \<noteq> Ready then ([], args, g)
      else
        case recv_loop tr lat len n 0 []
               (args\<lparr>bytes_received := 0, messages_received := 0, total_latency := 0\<rparr>) of
          (k, lg, args1) \<Rightarrow>
            (let args2 = args1\<lparr>cl_elapsed_time := el\<rparr>;
                 avg_latency =
                   (if messages_received args2 > 0
                    then total_latency args2 / real (unat (messages_received args2)) else 0)
             in (lg, args2,
                 g\<lparr>total_bytes := total_bytes g + bytes_received args2,
                   total_messages := total_messages g + messages_received args2,
                   total_time := cl_elapsed_time args2,
                   avg_latency_us := avg_latency_us g + avg_latency\<rparr>)))"

text \<open>The copy-based client asks for \<^verbatim>\<open>msg_size\<close> bytes per \<^verbatim>\<open>recv\<close>.\<close>

definition A1_client_thread ::
  "startup \<Rightarrow> transport \<Rightarrow> (nat \<Rightarrow> real) \<Rightarrow> nat \<Rightarrow> real \<Rightarrow> ClientThreadArgs \<Rightarrow> Metrics
     \<Rightarrow> call list list \<times> ClientThreadArgs \<times> Metrics" where
  "A1_client_thread st tr lat n el args g =
     client_thread_body (cl_msg_size args) st tr lat n el args g"

text \<open>
  The scatter/gather client receives into eight buffers of \<^verbatim>\<open>msg_size / NUM_FIELDS\<close> bytes.
\<close>

definition A2_client_thread ::
  "startup \<Rightarrow> transport \<Rightarrow> (nat \<Rightarrow> real) \<Rightarrow> nat \<Rightarrow> real \<Rightarrow> ClientThreadArgs \<Rightarrow> Metrics
     \<Rightarrow> call list list \<times> ClientThreadArgs \<times> Metrics" where
  "A2_client_thread st tr lat n el args g =
     client_thread_body
       (iov_total (map (\<lambda>i. (None, cl_msg_size args div NUM_FIELDS)) [0..<NUM_FIELDS]))
       st tr lat n el args g"

text \<open>The zero-copy client receives into one buffer of \<^verbatim>\<open>msg_size\<close> bytes.\<close>

definition A3_client_thread ::
  "startup \<Rightarrow> transport \<Rightarrow> (nat \<Rightarrow> real) \<Rightarrow> nat \<Rightarrow> real \<Rightarrow> ClientThreadArgs \<Rightarrow> Metrics
     \<Rightarrow> call list list \<times> ClientThreadArgs \<times> Metrics" where
  "A3_client_thread st tr lat n el args g =
     client_thread_body (iov_total [(None, cl_msg_size args)]) st tr lat n el args g"

text \<open>
  The client's \<^verbatim>\<open>main\<close> from the created threads on. \<open>ws\<close> holds, for each thread
  created, its environment; \<open>order\<close> is the order in which the threads take the mutex.
  After joining, \<^verbatim>\<open>main\<close> derives the throughput and divides the summed latency by
  \<^verbatim>\<open>num_threads\<close>, the number of threads created.
\<close>

type_synonym client_env = "startup \<times> transport \<times> (nat \<Rightarrow> real) \<times> nat \<times> real \<times> ClientThreadArgs"

definition run_client :: "client_env \<Rightarrow> Metrics \<Rightarrow> Metrics" where
  "run_client w g =
     (case w of (st, tr, lat, n, el, args) \<Rightarrow>
        snd (snd (A1_client_thread st tr lat n el args g)))"

definition A1_client_main :: "client_env list \<Rightarrow> nat list \<Rightarrow> Metrics" where
  "A1_client_main ws order =
     (let g0 = \<lparr>total_bytes = 0, total_messages = 0, total_time = 0,
                throughput_gbps = 0, avg_latency_us = 0\<rparr>;
          g1 = foldl (\<lambda>g i. run_client (ws ! i) g) g0 order;
          g2 = g1\<lparr>throughput_gbps := calc_throughput_gbps (total_bytes g1) (total_time g1)\<rparr>
      in g2\<lparr>avg_latency_us := avg_latency_us g2 / real (length ws)\<rparr>)"

section \<open>Notions used in the statements\<close>

text \<open>All nine allocations of \<^verbatim>\<open>create_message\<close> succeed.\<close>

definition all_allocated :: "(nat \<Rightarrow> bool) \<Rightarrow> bool" where
  "all_allocated a = (a 0 \<and> a 1 \<and> a 2 \<and> a 3 \<and> a 4 \<and> a 5 \<and> a 6 \<and> a 7 \<and> a 8)"

text \<open>
  The nine blocks a successful \<^verbatim>\<open>create_message\<close> adds to a heap that had \<open>n\<close> blocks:
  the record, then the eight filled fields.
\<close>

definition built :: "nat \<Rightarrow> nat \<Rightarrow> heap" where
  "built fs n =
     [Some (MessageB \<lparr>field1 = Some (n + 1), field2 = Some (n + 2), field3 = Some (n + 3),
                      field4 = Some (n + 4), field5 = Some (n + 5), field6 = Some (n + 6),
                      field7 = Some (n + 7), field8 = Some (n + 8)\<rparr>),
      Some (Chars (replicate fs (Some CHR ''A''))),
      Some (Chars (replicate fs (Some CHR ''B''))),
      Some (Chars (replicate fs (Some CHR ''C''))),
      Some (Chars (replicate fs (Some CHR ''D''))),
      Some (Chars (replicate fs (Some CHR ''E''))),
      Some (Chars (replicate fs (Some CHR ''F''))),
      Some (Chars (replicate fs (Some CHR ''G''))),
      Some (Chars (replicate fs (Some CHR ''H'')))]"

text \<open>The byte pattern of a transfer unit: \<open>fs\<close> bytes of each of the letters A to H.\<close>

definition pattern :: "nat \<Rightarrow> string" where
  "pattern fs =
     replicate fs CHR ''A'' @ replicate fs CHR ''B'' @ replicate fs CHR ''C'' @
     replicate fs CHR ''D'' @ replicate fs CHR ''E'' @ replicate fs CHR ''F'' @
     replicate fs CHR ''G'' @ replicate fs CHR ''H''"

text \<open>
  Reading a log: the results of all calls in it, the bytes a call moved, whether it
  returned a positive count, and whether it returned a count at all.
\<close>

definition results :: "call list list \<Rightarrow> call_result list" where
  "results lg = map (\<lambda>c. snd (snd c)) (concat lg)"

fun returned :: "call_result \<Rightarrow> nat" where
  "returned (Ret r) = r"
| "returned (Fail e) = 0"

fun positive :: "call_result \<Rightarrow> bool" where
  "positive (Ret r) = (0 < r)"
| "positive (Fail e) = False"

fun succeeded :: "call_result \<Rightarrow> bool" where
  "succeeded (Ret r) = True"
| "succeeded (Fail e) = False"

text \<open>
  The shape of one iteration of the zero-copy send loop with the offload enabled: one call
  with \<^verbatim>\<open>MSG_ZEROCOPY\<close> that did not fail with \<^verbatim>\<open>ENOBUFS\<close> or \<^verbatim>\<open>EINVAL\<close>, or such a
  failed call followed by exactly one call with flags 0 for the same length.
\<close>

fun offload_iteration :: "nat \<Rightarrow> call list \<Rightarrow> bool" where
  "offload_iteration len [(f, l, r)] =
     (f = MSG_ZEROCOPY \<and> l = len \<and> r \<noteq> Fail ENOBUFS \<and> r \<noteq> Fail EINVAL)"
| "offload_iteration len [(f, l, r), (f', l', r')] =
     (f = MSG_ZEROCOPY \<and> l = len \<and> (r = Fail ENOBUFS \<or> r = Fail EINVAL) \<and>
      f' = NOFLAGS \<and> l' = len)"
| "offload_iteration len cs = False"

text \<open>
  The mean per-call latency of one client worker as the specification words it: the
  worker's total latency divided by the number of messages it received, and 0 for a worker
  that received none (one that never reached its loop received none).
\<close>

definition worker_mean :: "client_env \<Rightarrow> real" where
  "worker_mean w =
     (case w of (st, tr, lat, n, el, args) \<Rightarrow>
        if st \<noteq> Ready then 0
        else
          (case recv_loop tr lat (cl_msg_size args) n 0 []
                  (args\<lparr>bytes_received := 0, messages_received := 0, total_latency := 0\<rparr>) of
             (k, lg, args') \<Rightarrow>
               if messages_received args' = 0 then 0
               else total_latency args' / real (unat (messages_received args'))))"

text \<open>Records with their counters at 0, and the empty global metrics, for concrete runs.\<close>

definition client_slot :: "nat \<Rightarrow> ClientThreadArgs" where
  "client_slot m = \<lparr>cl_msg_size = m, bytes_received = 0, messages_received = 0,
                    total_latency = 0, cl_elapsed_time = 0\<rparr>"

definition server_slot :: "nat \<Rightarrow> ServerThreadArgs" where
  "server_slot m = \<lparr>msg_size = m, bytes_sent = 0, messages_sent = 0, elapsed_time = 0\<rparr>"

definition no_metrics :: Metrics where
  "no_metrics = \<lparr>total_bytes = 0, total_messages = 0, total_time = 0,
                 throughput_gbps = 0, avg_latency_us = 0\<rparr>"

section \<open>The heap and the message\<close>

lemma live_append_dead:
  assumes d: "list_all (\<lambda>x. x = None) xs"
  shows "live (h @ xs) = live h"
proof -
  have split: "[0..<length h + length xs] = [0..<length h] @ [length h..<length h + length xs]"
    by (metis upt_add_eq_append zero_le)
  have one: "filter (\<lambda>a. (h @ xs) ! a \<noteq> None) [0..<length h]
             = filter (\<lambda>a. h ! a \<noteq> None) [0..<length h]"
    by (rule filter_cong) (auto simp: nth_append)
  have two: "filter (\<lambda>a. (h @ xs) ! a \<noteq> None) [length h..<length h + length xs] = []"
    using d by (auto simp: filter_empty_conv nth_append list_all_iff)
  show ?thesis unfolding live_def length_append split filter_append one two by simp
qed

lemma live_append_alive:
  assumes d: "list_all (\<lambda>x. x \<noteq> None) xs"
  shows "live (h @ xs) = live h @ [length h..<length h + length xs]"
proof -
  have split: "[0..<length h + length xs] = [0..<length h] @ [length h..<length h + length xs]"
    by (metis upt_add_eq_append zero_le)
  have one: "filter (\<lambda>a. (h @ xs) ! a \<noteq> None) [0..<length h]
             = filter (\<lambda>a. h ! a \<noteq> None) [0..<length h]"
    by (rule filter_cong) (auto simp: nth_append)
  have two: "filter (\<lambda>a. (h @ xs) ! a \<noteq> None) [length h..<length h + length xs]
             = [length h..<length h + length xs]"
    using d by (auto simp: filter_id_conv nth_append list_all_iff)
  show ?thesis unfolding live_def length_append split filter_append one two by simp
qed

lemma create_ok:
  "all_allocated a \<Longrightarrow> create_message a fs h = (Some (length h), h @ built fs (length h))"
  unfolding all_allocated_def
  apply (simp only: create_message_def)
  apply (simp only: malloc_def if_True split_conv option.case prod.case Let_def)
  apply (simp add: memset_def nth_append list_update_append built_def)
  done

lemma create_fail0: "\<not> a 0 \<Longrightarrow> create_message a fs h = (None, h)"
  by (simp add: create_message_def malloc_def)

lemma create_fail1:
  "a 0 \<Longrightarrow> \<not> (a 1 \<and> a 2 \<and> a 3 \<and> a 4 \<and> a 5 \<and> a 6 \<and> a 7 \<and> a 8) \<Longrightarrow>
   \<exists>xs. create_message a fs h = (None, h @ xs) \<and> list_all (\<lambda>x. x = None) xs"
  apply (simp only: create_message_def)
  apply (cases "a 1"; cases "a 2"; cases "a 3"; cases "a 4";
         cases "a 5"; cases "a 6"; cases "a 7"; cases "a 8";
         simp only: malloc_def if_True if_False split_conv option.case prod.case Let_def;
         simp add: free_def nth_append list_update_append)
  done

lemma create_fail:
  assumes "\<not> all_allocated a"
  shows "\<exists>xs. create_message a fs h = (None, h @ xs) \<and> list_all (\<lambda>x. x = None) xs"
proof (cases "a 0")
  case True
  with assms have "\<not> (a 1 \<and> a 2 \<and> a 3 \<and> a 4 \<and> a 5 \<and> a 6 \<and> a 7 \<and> a 8)"
    by (simp add: all_allocated_def)
  with True show ?thesis by (rule create_fail1)
next
  case False
  then have "create_message a fs h = (None, h @ [])" by (simp add: create_fail0)
  then show ?thesis by (intro exI[of _ "[]"]) simp
qed

lemma create_message_Some:
  assumes "create_message a fs h = (Some m, h1)"
  shows "all_allocated a \<and> m = length h \<and> h1 = h @ built fs (length h)"
proof (cases "all_allocated a")
  case True
  with assms show ?thesis by (auto simp: create_ok)
next
  case False
  from create_fail[OF this, of fs h] assms show ?thesis by auto
qed

lemma built_lookup:
  "load_message (h @ built fs (length h)) (Some (length h)) =
     Some \<lparr>field1 = Some (length h + 1), field2 = Some (length h + 2),
           field3 = Some (length h + 3), field4 = Some (length h + 4),
           field5 = Some (length h + 5), field6 = Some (length h + 6),
           field7 = Some (length h + 7), field8 = Some (length h + 8)\<rparr>"
  "load_chars (h @ built fs (length h)) (Some (length h + 1)) = replicate fs (Some CHR ''A'')"
  "load_chars (h @ built fs (length h)) (Some (length h + 2)) = replicate fs (Some CHR ''B'')"
  "load_chars (h @ built fs (length h)) (Some (length h + 3)) = replicate fs (Some CHR ''C'')"
  "load_chars (h @ built fs (length h)) (Some (length h + 4)) = replicate fs (Some CHR ''D'')"
  "load_chars (h @ built fs (length h)) (Some (length h + 5)) = replicate fs (Some CHR ''E'')"
  "load_chars (h @ built fs (length h)) (Some (length h + 6)) = replicate fs (Some CHR ''F'')"
  "load_chars (h @ built fs (length h)) (Some (length h + 7)) = replicate fs (Some CHR ''G'')"
  "load_chars (h @ built fs (length h)) (Some (length h + 8)) = replicate fs (Some CHR ''H'')"
  by (simp_all add: load_message_def load_chars_def built_def nth_append)

lemma length_built: "length (built fs n) = 9"
  by (simp add: built_def)

lemma live_built: "live (h @ built fs (length h)) = live h @ [length h..<length h + 9]"
proof -
  have "list_all (\<lambda>x. x \<noteq> None) (built fs (length h))" by (simp add: built_def)
  from live_append_alive[OF this, of h] show ?thesis by (simp only: length_built)
qed

text \<open>
  C8. Message construction is all-or-nothing, whatever the outcomes of the nine
  allocations: either all succeed, the message is returned, its record and eight fields are
  the nine blocks added to the heap, and field \<open>i\<close> holds \<open>fs\<close> copies of its letter;
  or some allocation fails, \<^verbatim>\<open>NULL\<close> is returned, and the blocks that are live afterwards
  are exactly those that were live before (every field already allocated and the record
  have been released).
\<close>

theorem create_message_all_or_nothing:
  "(all_allocated a \<and>
    (\<exists>h'. create_message a fs h = (Some (length h), h') \<and>
       live h' = live h @ [length h..<length h + 9] \<and>
       load_message h' (Some (length h)) =
         Some \<lparr>field1 = Some (length h + 1), field2 = Some (length h + 2),
               field3 = Some (length h + 3), field4 = Some (length h + 4),
               field5 = Some (length h + 5), field6 = Some (length h + 6),
               field7 = Some (length h + 7), field8 = Some (length h + 8)\<rparr> \<and>
       load_chars h' (Some (length h + 1)) = replicate fs (Some CHR ''A'') \<and>
       load_chars h' (Some (length h + 2)) = replicate fs (Some CHR ''B'') \<and>
       load_chars h' (Some (length h + 3)) = replicate fs (Some CHR ''C'') \<and>
       load_chars h' (Some (length h + 4)) = replicate fs (Some CHR ''D'') \<and>
       load_chars h' (Some (length h + 5)) = replicate fs (Some CHR ''E'') \<and>
       load_chars h' (Some (length h + 6)) = replicate fs (Some CHR ''F'') \<and>
       load_chars h' (Some (length h + 7)) = replicate fs (Some CHR ''G'') \<and>
       load_chars h' (Some (length h + 8)) = replicate fs (Some CHR ''H'')))
   \<or> (\<not> all_allocated a \<and>
       (\<exists>h'. create_message a fs h = (None, h') \<and> live h' = live h))"
proof (cases "all_allocated a")
  case True
  have "create_message a fs h = (Some (length h), h @ built fs (length h))"
    using True by (rule create_ok)
  with True show ?thesis
    by (intro disjI1 conjI exI[of _ "h @ built fs (length h)"])
       (simp_all only: built_lookup live_built)
next
  case False
  from create_fail[OF this] obtain xs where
    "create_message a fs h = (None, h @ xs)" "list_all (\<lambda>x. x = None) xs" by blast
  with False show ?thesis by (auto simp: live_append_dead)
qed

theorem create_message_all_or_nothing_witness:
  "fst (create_message (\<lambda>k. k \<noteq> 3) 2 [Some (Chars [])]) = None \<and>
   live (snd (create_message (\<lambda>k. k \<noteq> 3) 2 [Some (Chars [])])) = [0] \<and>
   fst (create_message (\<lambda>k. True) 2 [Some (Chars [])]) = Some 1 \<and>
   live (snd (create_message (\<lambda>k. True) 2 [Some (Chars [])])) = [0, 1, 2, 3, 4, 5, 6, 7, 8, 9] \<and>
   load_chars (snd (create_message (\<lambda>k. True) 2 [Some (Chars [])])) (Some 9)
     = [Some CHR ''H'', Some CHR ''H'']"
proof -
  have l0: "live [Some (Chars [])] = [0]" by (simp add: live_def)
  have u: "[Suc 0..<10] = [1, 2, 3, 4, 5, 6, 7, 8, 9]" by (simp add: upt_rec)
  show ?thesis
    using create_message_all_or_nothing [of "\<lambda>k. k \<noteq> 3" 2 "[Some (Chars [])]"]
      create_message_all_or_nothing [of "\<lambda>k. True" 2 "[Some (Chars [])]"]
    by (auto simp: all_allocated_def l0 u numeral_2_eq_2)
qed

lemma memcpy_step:
  assumes "length pre = off" "n \<le> length src"
  shows "memcpy (pre @ replicate (n + r) None) off src n = pre @ take n src @ replicate r None"
  using assms by (simp add: memcpy_def)

lemma serialize_data:
  fixes fs :: nat
  assumes "length s1 = fs" "length s2 = fs" "length s3 = fs" "length s4 = fs"
    "length s5 = fs" "length s6 = fs" "length s7 = fs" "length s8 = fs"
  shows "memcpy (memcpy (memcpy (memcpy (memcpy (memcpy (memcpy (memcpy
           (replicate (8 * fs) None) 0 s1 fs) fs s2 fs) (2 * fs) s3 fs) (3 * fs) s4 fs)
           (4 * fs) s5 fs) (5 * fs) s6 fs) (6 * fs) s7 fs) (7 * fs) s8 fs
         = s1 @ s2 @ s3 @ s4 @ s5 @ s6 @ s7 @ s8"
proof -
  have e1: "memcpy (replicate (8 * fs) None) 0 s1 fs = s1 @ replicate (7 * fs) None"
    using memcpy_step[of "[]" 0 fs s1 "7 * fs"] assms by simp
  have e2: "memcpy (s1 @ replicate (7 * fs) None) fs s2 fs = (s1 @ s2) @ replicate (6 * fs) None"
    using memcpy_step[of "s1" fs fs s2 "6 * fs"] assms by simp
  have e3: "memcpy ((s1 @ s2) @ replicate (6 * fs) None) (2 * fs) s3 fs
            = (s1 @ s2 @ s3) @ replicate (5 * fs) None"
    using memcpy_step[of "s1 @ s2" "2 * fs" fs s3 "5 * fs"] assms by simp
  have e4: "memcpy ((s1 @ s2 @ s3) @ replicate (5 * fs) None) (3 * fs) s4 fs
            = (s1 @ s2 @ s3 @ s4) @ replicate (4 * fs) None"
    using memcpy_step[of "s1 @ s2 @ s3" "3 * fs" fs s4 "4 * fs"] assms by simp
  have e5: "memcpy ((s1 @ s2 @ s3 @ s4) @ replicate (4 * fs) None) (4 * fs) s5 fs
            = (s1 @ s2 @ s3 @ s4 @ s5) @ replicate (3 * fs) None"
    using memcpy_step[of "s1 @ s2 @ s3 @ s4" "4 * fs" fs s5 "3 * fs"] assms by simp
  have e6: "memcpy ((s1 @ s2 @ s3 @ s4 @ s5) @ replicate (3 * fs) None) (5 * fs) s6 fs
            = (s1 @ s2 @ s3 @ s4 @ s5 @ s6) @ replicate (2 * fs) None"
    using memcpy_step[of "s1 @ s2 @ s3 @ s4 @ s5" "5 * fs" fs s6 "2 * fs"] assms by simp
  have e7: "memcpy ((s1 @ s2 @ s3 @ s4 @ s5 @ s6) @ replicate (2 * fs) None) (6 * fs) s7 fs
            = (s1 @ s2 @ s3 @ s4 @ s5 @ s6 @ s7) @ replicate fs None"
    using memcpy_step[of "s1 @ s2 @ s3 @ s4 @ s5 @ s6" "6 * fs" fs s7 "fs"] assms
    by (simp add: mult_2)
  have e8: "memcpy ((s1 @ s2 @ s3 @ s4 @ s5 @ s6 @ s7) @ replicate fs None) (7 * fs) s8 fs
            = s1 @ s2 @ s3 @ s4 @ s5 @ s6 @ s7 @ s8"
    using memcpy_step[of "s1 @ s2 @ s3 @ s4 @ s5 @ s6 @ s7" "7 * fs" fs s8 0] assms by simp
  show ?thesis by (simp only: e1 e2 e3 e4 e5 e6 e7 e8)
qed

lemma load_chars_append:
  "load_chars (h @ [Some (SerializedB s)]) p = load_chars h p"
  by (cases p) (auto simp: load_chars_def nth_append)

lemma load_message_append:
  "load_message (h @ [Some (SerializedB s)]) p = load_message h p"
  by (cases p) (auto simp: load_message_def nth_append)

lemma serialize_message_ok:
  assumes "load_message h msg = Some m"
  shows "serialize_message True msg fs h =
     (Some (length h),
      h @ [Some (SerializedB
            \<lparr>total_size = (NUM_FIELDS * fs) mod SIZE_MOD, field_size = fs,
             data =
               memcpy (memcpy (memcpy (memcpy (memcpy (memcpy (memcpy (memcpy
                 (replicate ((sizeof_SerializedMessage + (NUM_FIELDS * fs) mod SIZE_MOD) mod SIZE_MOD
                               - sizeof_SerializedMessage) None)
                 0 (load_chars h (field1 m)) fs) fs (load_chars h (field2 m)) fs)
                 (2 * fs) (load_chars h (field3 m)) fs) (3 * fs) (load_chars h (field4 m)) fs)
                 (4 * fs) (load_chars h (field5 m)) fs) (5 * fs) (load_chars h (field6 m)) fs)
                 (6 * fs) (load_chars h (field7 m)) fs) (7 * fs) (load_chars h (field8 m)) fs\<rparr>)])"
  apply (simp only: serialize_message_def Let_def malloc_def if_True split_conv option.case
      prod.case load_message_append load_chars_append assms list_update_length)
  done

lemma serialize_message_fail: "serialize_message False msg fs h = (None, h)"
  by (simp add: serialize_message_def malloc_def)

lemma serialize_built:
  assumes nowrap: "sizeof_SerializedMessage + NUM_FIELDS * fs < SIZE_MOD"
  shows "serialize_message True (Some (length h)) fs (h @ built fs (length h)) =
              (Some (length h + 9),
               h @ built fs (length h) @
                 [Some (SerializedB \<lparr>total_size = NUM_FIELDS * fs, field_size = fs,
                                     data = map Some (pattern fs)\<rparr>)])"
proof -
  have tds: "(NUM_FIELDS * fs) mod SIZE_MOD = 8 * fs"
    using nowrap by (simp add: NUM_FIELDS_def)
  have tsz: "(sizeof_SerializedMessage + 8 * fs) mod SIZE_MOD - sizeof_SerializedMessage = 8 * fs"
    using nowrap by (simp add: NUM_FIELDS_def)
  have dat: "memcpy (memcpy (memcpy (memcpy (memcpy (memcpy (memcpy (memcpy
           (replicate (8 * fs) None) 0 (replicate fs (Some CHR ''A'')) fs) fs (replicate fs (Some CHR ''B'')) fs)
            (2 * fs) (replicate fs (Some CHR ''C'')) fs) (3 * fs) (replicate fs (Some CHR ''D'')) fs)
           (4 * fs) (replicate fs (Some CHR ''E'')) fs) (5 * fs) (replicate fs (Some CHR ''F'')) fs)
           (6 * fs) (replicate fs (Some CHR ''G'')) fs) (7 * fs) (replicate fs (Some CHR ''H'')) fs
        = map Some (pattern fs)"
    by (subst serialize_data) (simp_all add: pattern_def)
  have len: "length (h @ built fs (length h)) = length h + 9"
    by (simp add: length_built)
  have n8: "NUM_FIELDS * fs = 8 * fs" by (simp add: NUM_FIELDS_def)
  have tds8: "(8 * fs) mod SIZE_MOD = 8 * fs"
    using tds by (simp only: n8)
  show ?thesis
    by (simp only: serialize_message_ok[OF built_lookup(1)] Message.simps built_lookup n8 tds8 tsz
        dat len append_assoc)
qed

text \<open>
  C4. For a message built with field size \<open>fs\<close> (sizes for which the size computation of
  \<^verbatim>\<open>serialize_message\<close> does not wrap around), serialization with a successful
  allocation returns a block whose data is \<open>fs\<close> bytes of A, then of B, and so on to H,
  every byte written, with \<^verbatim>\<open>total_size\<close> \<open>8 * fs\<close>; and serialization returns
  \<^verbatim>\<open>NULL\<close> exactly when its allocation fails.
\<close>

theorem serialize_message_concatenation:
  assumes built: "create_message a fs h = (Some m, h1)"
    and nowrap: "sizeof_SerializedMessage + NUM_FIELDS * fs < SIZE_MOD"
  shows "(\<exists>s h2. serialize_message True (Some m) fs h1 = (Some s, h2) \<and>
            load_serialized h2 (Some s) =
              Some \<lparr>total_size = 8 * fs, field_size = fs, data = map Some (pattern fs)\<rparr>) \<and>
         length (pattern fs) = 8 * fs \<and>
         pattern fs = concat (map (replicate fs) ''ABCDEFGH'') \<and>
         (\<forall>ok. (fst (serialize_message ok (Some m) fs h1) = None) = (\<not> ok))"
proof -
  from create_message_Some[OF built] have m: "m = length h" and h1: "h1 = h @ built fs (length h)"
    by simp_all
  have ser: "serialize_message True (Some m) fs h1 =
              (Some (length h + 9),
               h @ built fs (length h) @
                 [Some (SerializedB \<lparr>total_size = NUM_FIELDS * fs, field_size = fs,
                                     data = map Some (pattern fs)\<rparr>)])"
    unfolding m h1 by (rule serialize_built[OF nowrap])
  have ld: "load_serialized
              (h @ built fs (length h) @
                 [Some (SerializedB \<lparr>total_size = NUM_FIELDS * fs, field_size = fs,
                                     data = map Some (pattern fs)\<rparr>)]) (Some (length h + 9))
            = Some \<lparr>total_size = 8 * fs, field_size = fs, data = map Some (pattern fs)\<rparr>"
    by (simp add: load_serialized_def nth_append length_built NUM_FIELDS_def)
  have one: "\<exists>s h2. serialize_message True (Some m) fs h1 = (Some s, h2) \<and>
            load_serialized h2 (Some s) =
              Some \<lparr>total_size = 8 * fs, field_size = fs, data = map Some (pattern fs)\<rparr>"
    using ser ld by blast
  have two: "length (pattern fs) = 8 * fs" by (simp add: pattern_def)
  have three: "pattern fs = concat (map (replicate fs) ''ABCDEFGH'')" by (simp add: pattern_def)
  have four: "(fst (serialize_message ok (Some m) fs h1) = None) = (\<not> ok)" for ok
    by (cases ok) (simp_all add: ser serialize_message_fail)
  from one two three four show ?thesis by blast
qed

theorem serialize_message_concatenation_witness:
  "(\<exists>s h2. serialize_message True (Some 0) 2 (snd (create_message (\<lambda>k. True) 2 [])) = (Some s, h2) \<and>
      load_serialized h2 (Some s) =
        Some \<lparr>total_size = 16, field_size = 2, data = map Some (pattern 2)\<rparr>) \<and>
   pattern 2 = ''AABBCCDDEEFFGGHH''"
proof -
  have c: "create_message (\<lambda>k. True) 2 [] = (Some 0, snd (create_message (\<lambda>k. True) 2 []))"
    by (simp add: create_ok all_allocated_def)
  have w: "sizeof_SerializedMessage + NUM_FIELDS * 2 < SIZE_MOD"
    by (simp add: sizeof_SerializedMessage_def NUM_FIELDS_def SIZE_MOD_def)
  have p: "pattern 2 = ''AABBCCDDEEFFGGHH''"
    by (simp add: pattern_def numeral_2_eq_2)
  from serialize_message_concatenation[OF c w] have
    "\<exists>s h2. serialize_message True (Some 0) 2 (snd (create_message (\<lambda>k. True) 2 [])) = (Some s, h2) \<and>
      load_serialized h2 (Some s) =
        Some \<lparr>total_size = 8 * 2, field_size = 2, data = map Some (pattern 2)\<rparr>"
    by (rule conjunct1)
  then show ?thesis using p by simp
qed

section \<open>The worker loops\<close>

lemma results_snoc: "results (lg @ [cs]) = results lg @ map (\<lambda>c. snd (snd c)) cs"
  by (simp add: results_def)

lemma results_Nil: "results [] = []"
  by (simp add: results_def)

lemma recv_loop_inv:
  "recv_loop tr lat len n k lg args = (k', lg', args') \<Longrightarrow>
     bytes_received args' - of_nat (sum_list (map returned (results lg')))
       = bytes_received args - of_nat (sum_list (map returned (results lg))) \<and>
     messages_received args' - of_nat (length (filter positive (results lg')))
       = messages_received args - of_nat (length (filter positive (results lg))) \<and>
     length lg' \<le> length lg + n \<and>
     length (results lg') \<le> length (results lg) + n \<and>
     cl_msg_size args' = cl_msg_size args"
  by (induction tr lat len n k lg args rule: recv_loop.induct)
     (auto simp: results_snoc split: call_result.splits if_splits)

lemma recv_loop_calls:
  "recv_loop tr lat len n k lg args = (k', lg', args') \<Longrightarrow>
     k \<le> k' \<and> results lg' = results lg @ map tr [k..<k'] \<and>
     (\<forall>it \<in> set lg'. it \<in> set lg \<or> (\<exists>r. it = [(NOFLAGS, len, r)]))"
  by (induction tr lat len n k lg args rule: recv_loop.induct)
     (auto simp: results_snoc upt_conv_Cons split: call_result.splits if_splits)

lemma send_loop_inv:
  "send_loop tr len n k lg args = (k', lg', args') \<Longrightarrow>
     bytes_sent args' - of_nat (sum_list (map returned (results lg')))
       = bytes_sent args - of_nat (sum_list (map returned (results lg))) \<and>
     messages_sent args' - of_nat (length (filter succeeded (results lg')))
       = messages_sent args - of_nat (length (filter succeeded (results lg))) \<and>
     length lg' \<le> length lg + n \<and>
     length (results lg') \<le> length (results lg) + n \<and>
     msg_size args' = msg_size args"
  by (induction tr len n k lg args rule: send_loop.induct)
     (auto simp: results_snoc split: call_result.splits if_splits)

lemma send_loop_calls:
  "send_loop tr len n k lg args = (k', lg', args') \<Longrightarrow>
     k \<le> k' \<and> results lg' = results lg @ map tr [k..<k'] \<and>
     (\<forall>it \<in> set lg'. it \<in> set lg \<or> (\<exists>r. it = [(NOFLAGS, len, r)]))"
  by (induction tr len n k lg args rule: send_loop.induct)
     (auto simp: results_snoc upt_conv_Cons split: call_result.splits if_splits)

lemma zc_send_loop_inv:
  "zc_send_loop z tr len n k lg args = (k', lg', args') \<Longrightarrow>
     bytes_sent args' - of_nat (sum_list (map returned (results lg')))
       = bytes_sent args - of_nat (sum_list (map returned (results lg))) \<and>
     messages_sent args' - of_nat (length (filter succeeded (results lg')))
       = messages_sent args - of_nat (length (filter succeeded (results lg))) \<and>
     length lg' \<le> length lg + n \<and>
     msg_size args' = msg_size args"
  by (induction z tr len n k lg args rule: zc_send_loop.induct)
     (auto simp: results_snoc zc_send_def split: call_result.splits if_splits prod.splits)

lemma zc_send_facts:
  assumes "zc_send z tr len k = (sent, k1, calls)"
  shows "k < k1" "map (\<lambda>c. snd (snd c)) calls = map tr [k..<k1]"
    "if z then offload_iteration len calls else calls = [(NOFLAGS, len, tr k)]"
  using assms
  by (auto simp: zc_send_def upt_conv_Cons split: if_splits call_result.splits)

lemma zc_send_loop_calls:
  "zc_send_loop z tr len n k lg args = (k', lg', args') \<Longrightarrow>
     k \<le> k' \<and> results lg' = results lg @ map tr [k..<k'] \<and>
     (\<forall>it \<in> set lg'. it \<in> set lg \<or>
        (if z then offload_iteration len it else (\<exists>r. it = [(NOFLAGS, len, r)])))"
proof (induction n arbitrary: k lg args)
  case 0
  then show ?case by simp
next
  case (Suc n)
  obtain sent k1 calls where zs: "zc_send z tr len k = (sent, k1, calls)"
    by (cases "zc_send z tr len k") auto
  note f = zc_send_facts[OF zs]
  have stop: ?case if "k' = k1" "lg' = lg @ [calls]"
    using that f by (auto simp: results_snoc split: if_splits)
  have go: ?case if "zc_send_loop z tr len n k1 (lg @ [calls]) a = (k', lg', args')" for a
  proof -
    from Suc.IH[OF that] have ih: "k1 \<le> k'"
      "results lg' = results (lg @ [calls]) @ map tr [k1..<k']"
      "\<forall>it \<in> set lg'. it \<in> set (lg @ [calls]) \<or>
        (if z then offload_iteration len it else (\<exists>r. it = [(NOFLAGS, len, r)]))"
      by blast+
    have "map tr [k..<k'] = map tr [k..<k1] @ map tr [k1..<k']"
      using f(1) ih(1) by (metis less_imp_le_nat map_append upt_add_eq_append le_Suc_ex)
    then show ?thesis using ih f by (auto simp: results_snoc split: if_splits)
  qed
  from Suc.prems zs have
    "(k' = k1 \<and> lg' = lg @ [calls]) \<or>
     (\<exists>a. zc_send_loop z tr len n k1 (lg @ [calls]) a = (k', lg', args'))"
    by (auto split: call_result.splits if_splits)
  then show ?case using stop go by blast
qed

section \<open>The workers\<close>

lemma load_serialized_last:
  "load_serialized (h @ [Some (SerializedB s)]) (Some (length h)) = Some s"
  by (simp add: load_serialized_def)

lemma iov_total_message_iov: "iov_total (message_iov m fs) = NUM_FIELDS * fs"
  by (simp add: iov_total_def message_iov_def NUM_FIELDS_def)

lemma A1_handle_client_ok:
  assumes "all_allocated a"
  shows "A1_handle_client a True tr n el h args =
     (case send_loop tr ((NUM_FIELDS * (msg_size args div NUM_FIELDS)) mod SIZE_MOD) n 0 []
             (args\<lparr>bytes_sent := 0, messages_sent := 0\<rparr>) of
        (k, lg, args') \<Rightarrow> (lg, args'\<lparr>elapsed_time := el\<rparr>))"
  by (simp only: A1_handle_client_def Let_def create_ok[OF assms] prod.case option.case
      serialize_message_ok[OF built_lookup(1)] load_serialized_last SerializedMessage.simps)

lemma A1_handle_client_fail:
  assumes "\<not> all_allocated a \<or> \<not> sa"
  shows "A1_handle_client a sa tr n el h args = ([], args)"
proof (cases "all_allocated a")
  case True
  with assms have "\<not> sa" by simp
  then show ?thesis
    by (simp add: A1_handle_client_def create_ok[OF True] serialize_message_fail)
next
  case False
  from create_fail[OF this, of "msg_size args div NUM_FIELDS" h] show ?thesis
    by (auto simp: A1_handle_client_def)
qed

lemma A2_handle_client_ok:
  assumes "all_allocated a"
  shows "A2_handle_client a tr n el h args =
     (case send_loop tr (NUM_FIELDS * (msg_size args div NUM_FIELDS)) n 0 []
             (args\<lparr>bytes_sent := 0, messages_sent := 0\<rparr>) of
        (k, lg, args') \<Rightarrow> (lg, args'\<lparr>elapsed_time := el\<rparr>))"
  by (simp only: A2_handle_client_def Let_def create_ok[OF assms] prod.case option.case
      built_lookup iov_total_message_iov)

lemma A3_handle_client_ok:
  assumes "all_allocated a"
  shows "A3_handle_client z a tr n el h args =
     (case zc_send_loop z tr (NUM_FIELDS * (msg_size args div NUM_FIELDS)) n 0 []
             (args\<lparr>bytes_sent := 0, messages_sent := 0\<rparr>) of
        (k, lg, args') \<Rightarrow> (lg, args'\<lparr>elapsed_time := el\<rparr>))"
  by (simp only: A3_handle_client_def Let_def create_ok[OF assms] prod.case option.case
      built_lookup iov_total_message_iov)

lemma A2_handle_client_fail:
  assumes "\<not> all_allocated a"
  shows "A2_handle_client a tr n el h args = ([], args)"
  using create_fail[OF assms, of "msg_size args div NUM_FIELDS" h]
  by (auto simp: A2_handle_client_def)

lemma A3_handle_client_fail:
  assumes "\<not> all_allocated a"
  shows "A3_handle_client z a tr n el h args = ([], args)"
  using create_fail[OF assms, of "msg_size args div NUM_FIELDS" h]
  by (auto simp: A3_handle_client_def)

lemma zc_off_eq_send_loop:
  "\<forall>i. k \<le> i \<and> i < k + n \<longrightarrow> tr i \<noteq> Fail EAGAIN \<Longrightarrow>
   zc_send_loop False tr len n k lg args = send_loop tr len n k lg args"
proof (induction n arbitrary: k lg args)
  case 0
  then show ?case by simp
next
  case (Suc n)
  have here: "tr k \<noteq> Fail EAGAIN" using Suc.prems by simp
  have rest: "\<forall>i. Suc k \<le> i \<and> i < Suc k + n \<longrightarrow> tr i \<noteq> Fail EAGAIN"
    using Suc.prems by simp
  show ?case
    using here Suc.IH[OF rest]
    by (cases "tr k") (auto simp: zc_send_def EWOULDBLOCK_def)
qed

lemma client_thread_body_Ready:
  "client_thread_body len Ready tr lat n el args g = (lg, args', g') \<Longrightarrow>
   \<exists>k a1. recv_loop tr lat len n 0 []
             (args\<lparr>bytes_received := 0, messages_received := 0, total_latency := 0\<rparr>) = (k, lg, a1) \<and>
          args' = a1\<lparr>cl_elapsed_time := el\<rparr>"
  by (auto simp: client_thread_body_def Let_def split: prod.splits)

lemma unat_of_nat64: "unat (of_nat n :: 64 word) = n mod 2 ^ 64"
  by (simp add: unat_of_nat)

lemma all_allocated_True: "all_allocated (\<lambda>k. True)"
  by (simp add: all_allocated_def)

section \<open>Counters and calls\<close>

text \<open>
  C10, as the code has it. In every worker loop, started with its counters reset as the
  workers do, the log holds the transport's results in call order, the byte counter is the
  sum of the counts the calls returned (a failed call and a call that returned 0 add
  nothing), and the message counter is the number of calls that returned a positive count
  in the receive loop and the number of calls that returned any count, 0 included, in the
  send loops; so a short transfer counts as one message. The counters are 64-bit
  unsigned, hence the values modulo \<open>2 ^ 64\<close>.
\<close>

theorem counters_follow_calls:
  "(case recv_loop tr lat len n 0 []
           (cargs\<lparr>bytes_received := 0, messages_received := 0, total_latency := 0\<rparr>) of
      (k, lg, a) \<Rightarrow>
        results lg = map tr [0..<k] \<and>
        unat (bytes_received a) = sum_list (map returned (results lg)) mod 2 ^ 64 \<and>
        unat (messages_received a) = length (filter positive (results lg)) mod 2 ^ 64) \<and>
   (case send_loop tr len n 0 [] (sargs\<lparr>bytes_sent := 0, messages_sent := 0\<rparr>) of
      (k, lg, a) \<Rightarrow>
        results lg = map tr [0..<k] \<and>
        unat (bytes_sent a) = sum_list (map returned (results lg)) mod 2 ^ 64 \<and>
        unat (messages_sent a) = length (filter succeeded (results lg)) mod 2 ^ 64) \<and>
   (case zc_send_loop z tr len n 0 [] (sargs\<lparr>bytes_sent := 0, messages_sent := 0\<rparr>) of
      (k, lg, a) \<Rightarrow>
        results lg = map tr [0..<k] \<and>
        unat (bytes_sent a) = sum_list (map returned (results lg)) mod 2 ^ 64 \<and>
        unat (messages_sent a) = length (filter succeeded (results lg)) mod 2 ^ 64)"
proof (intro conjI)
  obtain k lg a where r: "recv_loop tr lat len n 0 []
           (cargs\<lparr>bytes_received := 0, messages_received := 0, total_latency := 0\<rparr>) = (k, lg, a)"
    by (metis prod_cases3)
  from recv_loop_inv[OF r] recv_loop_calls[OF r]
  have "results lg = map tr [0..<k]"
    "bytes_received a = of_nat (sum_list (map returned (results lg)))"
    "messages_received a = of_nat (length (filter positive (results lg)))"
    by (simp_all add: results_Nil)
  then show "case recv_loop tr lat len n 0 []
           (cargs\<lparr>bytes_received := 0, messages_received := 0, total_latency := 0\<rparr>) of
      (k, lg, a) \<Rightarrow>
        results lg = map tr [0..<k] \<and>
        unat (bytes_received a) = sum_list (map returned (results lg)) mod 2 ^ 64 \<and>
        unat (messages_received a) = length (filter positive (results lg)) mod 2 ^ 64"
    by (simp add: r unat_of_nat64)
next
  obtain k lg a where r: "send_loop tr len n 0 [] (sargs\<lparr>bytes_sent := 0, messages_sent := 0\<rparr>) = (k, lg, a)"
    by (metis prod_cases3)
  from send_loop_inv[OF r] send_loop_calls[OF r]
  have "results lg = map tr [0..<k]"
    "bytes_sent a = of_nat (sum_list (map returned (results lg)))"
    "messages_sent a = of_nat (length (filter succeeded (results lg)))"
    by (simp_all add: results_Nil)
  then show "case send_loop tr len n 0 [] (sargs\<lparr>bytes_sent := 0, messages_sent := 0\<rparr>) of
      (k, lg, a) \<Rightarrow>
        results lg = map tr [0..<k] \<and>
        unat (bytes_sent a) = sum_list (map returned (results lg)) mod 2 ^ 64 \<and>
        unat (messages_sent a) = length (filter succeeded (results lg)) mod 2 ^ 64"
    by (simp add: r unat_of_nat64)
next
  obtain k lg a where r: "zc_send_loop z tr len n 0 [] (sargs\<lparr>bytes_sent := 0, messages_sent := 0\<rparr>) = (k, lg, a)"
    by (metis prod_cases3)
  from zc_send_loop_inv[OF r] zc_send_loop_calls[OF r]
  have "results lg = map tr [0..<k]"
    "bytes_sent a = of_nat (sum_list (map returned (results lg)))"
    "messages_sent a = of_nat (length (filter succeeded (results lg)))"
    by (simp_all add: results_Nil)
  then show "case zc_send_loop z tr len n 0 [] (sargs\<lparr>bytes_sent := 0, messages_sent := 0\<rparr>) of
      (k, lg, a) \<Rightarrow>
        results lg = map tr [0..<k] \<and>
        unat (bytes_sent a) = sum_list (map returned (results lg)) mod 2 ^ 64 \<and>
        unat (messages_sent a) = length (filter succeeded (results lg)) mod 2 ^ 64"
    by (simp add: r unat_of_nat64)
qed

theorem counters_follow_calls_witness:
  "unat (bytes_received (snd (snd (recv_loop (\<lambda>k. if k = 0 then Ret 512 else Ret 1024) (\<lambda>k. 1)
           1024 (Suc (Suc 0)) 0 [] (client_slot 1024))))) = 1536 \<and>
   unat (messages_received (snd (snd (recv_loop (\<lambda>k. if k = 0 then Ret 512 else Ret 1024) (\<lambda>k. 1)
           1024 (Suc (Suc 0)) 0 [] (client_slot 1024))))) = 2"
proof -
  have c: "(client_slot 1024)\<lparr>bytes_received := 0, messages_received := 0, total_latency := 0\<rparr>
           = client_slot 1024"
    by (simp add: client_slot_def)
  have r: "fst (snd (recv_loop (\<lambda>k. if k = 0 then Ret 512 else Ret 1024) (\<lambda>k. 1)
           1024 (Suc (Suc 0)) 0 [] (client_slot 1024)))
           = [[(NOFLAGS, 1024, Ret 512)], [(NOFLAGS, 1024, Ret 1024)]]"
    by (simp add: client_slot_def)
  from counters_follow_calls[of "\<lambda>k. if k = 0 then Ret 512 else Ret 1024" "\<lambda>k. 1" 1024
      "Suc (Suc 0)" "client_slot 1024" "server_slot 1024" True]
  have "case recv_loop (\<lambda>k. if k = 0 then Ret 512 else Ret 1024) (\<lambda>k. 1) 1024 (Suc (Suc 0)) 0 []
           (client_slot 1024) of
      (k, lg, a) \<Rightarrow>
        results lg = map (\<lambda>k. if k = 0 then Ret 512 else Ret 1024) [0..<k] \<and>
        unat (bytes_received a) = sum_list (map returned (results lg)) mod 2 ^ 64 \<and>
        unat (messages_received a) = length (filter positive (results lg)) mod 2 ^ 64"
    unfolding c by (rule conjunct1)
  then have
    "unat (bytes_received (snd (snd (recv_loop (\<lambda>k. if k = 0 then Ret 512 else Ret 1024) (\<lambda>k. 1)
           1024 (Suc (Suc 0)) 0 [] (client_slot 1024)))))
       = sum_list (map returned (results (fst (snd (recv_loop (\<lambda>k. if k = 0 then Ret 512 else Ret 1024)
           (\<lambda>k. 1) 1024 (Suc (Suc 0)) 0 [] (client_slot 1024)))))) mod 2 ^ 64"
    "unat (messages_received (snd (snd (recv_loop (\<lambda>k. if k = 0 then Ret 512 else Ret 1024) (\<lambda>k. 1)
           1024 (Suc (Suc 0)) 0 [] (client_slot 1024)))))
       = length (filter positive (results (fst (snd (recv_loop (\<lambda>k. if k = 0 then Ret 512 else Ret 1024)
           (\<lambda>k. 1) 1024 (Suc (Suc 0)) 0 [] (client_slot 1024)))))) mod 2 ^ 64"
    by (simp_all only: split_beta)
  then show ?thesis unfolding r by (simp add: results_def)
qed

text \<open>
  C10 as stated fails in the send loops: with a message size of 4 the transfer unit is
  empty, each \<^verbatim>\<open>send\<close> returns 0, and the copy-based server counts two messages
  though no call returned a positive value.
\<close>

theorem message_counter_counterexample:
  "case A1_handle_client (\<lambda>k. True) True (\<lambda>k. Ret 0) 2 0 []
          \<lparr>msg_size = 4, bytes_sent = 0, messages_sent = 0, elapsed_time = 0\<rparr> of
     (lg, args') \<Rightarrow>
       results lg = [Ret 0, Ret 0] \<and> length (filter positive (results lg)) = 0 \<and>
       messages_sent args' = 2 \<and>
       messages_sent args' \<noteq> of_nat (length (filter positive (results lg)))"
proof -
  have len: "(NUM_FIELDS * (4 div NUM_FIELDS)) mod SIZE_MOD = 0"
    by (simp add: NUM_FIELDS_def)
  show ?thesis
    by (simp add: A1_handle_client_ok all_allocated_True len numeral_2_eq_2 results_def)
qed

section \<open>The copy-based client and the transfer unit\<close>

lemma sum_returned_full:
  "\<forall>r \<in> set rs. positive r \<longrightarrow> r = Ret u \<Longrightarrow> u dvd sum_list (map returned rs)"
proof (induction rs)
  case Nil
  then show ?case by simp
next
  case (Cons r rs)
  then have ih: "u dvd sum_list (map returned rs)" by simp
  have "u dvd returned r"
  proof (cases r)
    case (Ret x)
    with Cons.prems show ?thesis by (cases "x = 0") auto
  next
    case (Fail e)
    then show ?thesis by simp
  qed
  with ih show ?case by simp
qed

text \<open>
  C2, as the code has it. For the copy-based client asking for 1024 bytes per call, after
  a run of fewer than \<open>2 ^ 64\<close> iterations in which some receive call returned a positive
  count, \<^verbatim>\<open>messages_received\<close> is positive and \<^verbatim>\<open>bytes_received\<close> is the sum of
  the counts returned; it is a multiple of 1024 when every call that returned a positive
  count returned exactly 1024 bytes.
\<close>

theorem copy_client_multiple_of_unit:
  assumes run: "A1_client_thread Ready tr lat n el args g = (lg, args', g')"
    and unit: "cl_msg_size args = 1024"
    and bound: "n < 2 ^ 64"
    and pos: "\<exists>r \<in> set (results lg). positive r"
  shows "0 < messages_received args' \<and>
         unat (bytes_received args') = sum_list (map returned (results lg)) mod 2 ^ 64 \<and>
         ((\<forall>r \<in> set (results lg). positive r \<longrightarrow> r = Ret 1024)
            \<longrightarrow> 1024 dvd unat (bytes_received args'))"
proof -
  from run obtain k a1 where
    loop: "recv_loop tr lat (cl_msg_size args) n 0 []
             (args\<lparr>bytes_received := 0, messages_received := 0, total_latency := 0\<rparr>) = (k, lg, a1)"
    and a': "args' = a1\<lparr>cl_elapsed_time := el\<rparr>"
    unfolding A1_client_thread_def by (blast dest: client_thread_body_Ready)
  from recv_loop_inv[OF loop] have
    b: "bytes_received args' = of_nat (sum_list (map returned (results lg)))" and
    m: "messages_received args' = of_nat (length (filter positive (results lg)))" and
    l: "length (results lg) \<le> n"
    by (simp_all add: a' results_Nil)
  have cnt: "length (filter positive (results lg)) \<le> n"
    using l length_filter_le[of positive "results lg"] by linarith
  have nz: "0 < length (filter positive (results lg))"
    using pos by (simp add: filter_empty_conv)
  have "unat (messages_received args') = length (filter positive (results lg))"
    using cnt bound by (simp add: m unat_of_nat64)
  with nz have one: "0 < messages_received args'"
    by (simp add: word_less_nat_alt)
  have two: "unat (bytes_received args') = sum_list (map returned (results lg)) mod 2 ^ 64"
    by (simp add: b unat_of_nat64)
  have three: "1024 dvd unat (bytes_received args')"
    if full: "\<forall>r \<in> set (results lg). positive r \<longrightarrow> r = Ret 1024"
  proof -
    have "(1024::nat) dvd sum_list (map returned (results lg))"
      using full by (rule sum_returned_full)
    moreover have "(1024::nat) dvd 2 ^ 64"
    proof -
      have "(2::nat) ^ 64 = 2 ^ 10 * 2 ^ 54" by (simp only: power_add[symmetric]) simp
      then show ?thesis by simp
    qed
    ultimately show ?thesis unfolding two by (simp add: dvd_mod)
  qed
  from one two three show ?thesis by blast
qed

lemma A1_client_thread_eval2:
  "A1_client_thread Ready (\<lambda>k. Ret 1024) (\<lambda>k. 1) (Suc (Suc 0)) 2 (client_slot 1024) no_metrics =
     ([[(NOFLAGS, 1024, Ret 1024)], [(NOFLAGS, 1024, Ret 1024)]],
      \<lparr>cl_msg_size = 1024, bytes_received = 2048, messages_received = 2,
        total_latency = 2, cl_elapsed_time = 2\<rparr>,
      \<lparr>total_bytes = 2048, total_messages = 2, total_time = 2,
        throughput_gbps = 0, avg_latency_us = 1\<rparr>)"
  by (simp add: A1_client_thread_def client_thread_body_def client_slot_def no_metrics_def
      Let_def)

theorem copy_client_multiple_of_unit_witness:
  "0 < messages_received
         (fst (snd (A1_client_thread Ready (\<lambda>k. Ret 1024) (\<lambda>k. 1) (Suc (Suc 0)) 2 (client_slot 1024) no_metrics))) \<and>
   1024 dvd unat (bytes_received
         (fst (snd (A1_client_thread Ready (\<lambda>k. Ret 1024) (\<lambda>k. 1) (Suc (Suc 0)) 2 (client_slot 1024) no_metrics))))"
proof -
  have u: "cl_msg_size (client_slot 1024) = 1024" by (simp add: client_slot_def)
  have b: "Suc (Suc 0) < 2 ^ 64" by simp
  have p: "\<exists>r \<in> set (results [[(NOFLAGS, 1024, Ret 1024)], [(NOFLAGS, 1024, Ret 1024)]]). positive r"
    by (simp add: results_def)
  from copy_client_multiple_of_unit[OF A1_client_thread_eval2 u b p]
  show ?thesis by (simp add: A1_client_thread_eval2 results_def)
qed

text \<open>
  C2 as stated fails: the stream may hand over part of a unit. One receive call that
  returns 512 of the 1024 bytes asked for leaves \<^verbatim>\<open>bytes_received\<close> at 512.
\<close>

theorem short_receive_counterexample:
  "case A1_client_thread Ready (\<lambda>k. Ret 512) (\<lambda>k. 1) (Suc 0) 2 (client_slot 1024) no_metrics of
     (lg, args', g') \<Rightarrow>
       (\<exists>r \<in> set (results lg). positive r) \<and> 0 < messages_received args' \<and>
       unat (bytes_received args') = 512 \<and> \<not> 1024 dvd unat (bytes_received args')"
  by (simp add: A1_client_thread_def client_thread_body_def client_slot_def no_metrics_def
      Let_def results_def)

section \<open>The zero-copy server\<close>

lemma unit_1024: "NUM_FIELDS * (1024 div NUM_FIELDS) = 1024"
  "(NUM_FIELDS * (1024 div NUM_FIELDS)) mod SIZE_MOD = 1024"
  "1024 mod SIZE_MOD = 1024"
  by (simp_all add: NUM_FIELDS_def SIZE_MOD_def)

text \<open>
  C6. With the offload enabled, every iteration of the zero-copy send loop first issues the
  vectorized send with \<^verbatim>\<open>MSG_ZEROCOPY\<close>; when that call fails with \<^verbatim>\<open>ENOBUFS\<close> or
  \<^verbatim>\<open>EINVAL\<close> the same iteration issues exactly one more send with flags 0, and
  otherwise no other; the next iteration asks for the offload again. The calls consume the
  transport's results in order.
\<close>

theorem offload_per_call_fallback:
  "(\<forall>it \<in> set (fst (A3_handle_client True a tr n el h args)).
      offload_iteration (NUM_FIELDS * (msg_size args div NUM_FIELDS)) it) \<and>
   results (fst (A3_handle_client True a tr n el h args))
     = map tr [0..<length (results (fst (A3_handle_client True a tr n el h args)))]"
proof (cases "all_allocated a")
  case False
  then show ?thesis by (simp add: A3_handle_client_fail results_Nil)
next
  case True
  obtain k lg a' where r: "zc_send_loop True tr (NUM_FIELDS * (msg_size args div NUM_FIELDS)) n 0 []
             (args\<lparr>bytes_sent := 0, messages_sent := 0\<rparr>) = (k, lg, a')"
    by (metis prod_cases3)
  have lg: "fst (A3_handle_client True a tr n el h args) = lg"
    by (simp add: A3_handle_client_ok[OF True] r)
  from zc_send_loop_calls[OF r] have
    "results lg = map tr [0..<k]"
    "\<forall>it \<in> set lg. offload_iteration (NUM_FIELDS * (msg_size args div NUM_FIELDS)) it"
    by (simp_all add: results_Nil)
  then show ?thesis unfolding lg by simp
qed

theorem offload_per_call_fallback_witness:
  "fst (A3_handle_client True (\<lambda>k. True)
          (\<lambda>k. if k = 0 then Fail ENOBUFS else Ret 1024) (Suc (Suc 0)) 2 [] (server_slot 1024))
     = [[(MSG_ZEROCOPY, 1024, Fail ENOBUFS), (NOFLAGS, 1024, Ret 1024)],
        [(MSG_ZEROCOPY, 1024, Ret 1024)]] \<and>
   offload_iteration 1024 [(MSG_ZEROCOPY, 1024, Fail ENOBUFS), (NOFLAGS, 1024, Ret 1024)] \<and>
   offload_iteration 1024 [(MSG_ZEROCOPY, 1024, Ret 1024)]"
proof -
  have e: "fst (A3_handle_client True (\<lambda>k. True)
          (\<lambda>k. if k = 0 then Fail ENOBUFS else Ret 1024) (Suc (Suc 0)) 2 [] (server_slot 1024))
     = [[(MSG_ZEROCOPY, 1024, Fail ENOBUFS), (NOFLAGS, 1024, Ret 1024)],
        [(MSG_ZEROCOPY, 1024, Ret 1024)]]"
    by (simp add: A3_handle_client_ok all_allocated_True server_slot_def unit_1024 zc_send_def)
  have m: "msg_size (server_slot 1024) = 1024" by (simp add: server_slot_def)
  from offload_per_call_fallback[of "\<lambda>k. True" "\<lambda>k. if k = 0 then Fail ENOBUFS else Ret 1024"
      "Suc (Suc 0)" 2 "[]" "server_slot 1024"]
  show ?thesis unfolding e m unit_1024 by simp
qed

text \<open>
  C7, as the code has it. When enabling the offload fails, the zero-copy worker issues the
  same sends, all with flags 0, and ends with the same counters as the scatter/gather
  worker, for every transport in which no call fails with \<^verbatim>\<open>EAGAIN\<close>
  (\<^verbatim>\<open>EWOULDBLOCK\<close>).
\<close>

theorem fallback_mode_is_scatter_gather:
  assumes "\<forall>i<n. tr i \<noteq> Fail EAGAIN"
  shows "A3_handle_client False a tr n el h args = A2_handle_client a tr n el h args \<and>
         (\<forall>it \<in> set (fst (A3_handle_client False a tr n el h args)).
            \<exists>r. it = [(NOFLAGS, NUM_FIELDS * (msg_size args div NUM_FIELDS), r)])"
proof (cases "all_allocated a")
  case False
  then show ?thesis by (simp add: A3_handle_client_fail A2_handle_client_fail)
next
  case True
  have eq: "zc_send_loop False tr len n 0 lg x = send_loop tr len n 0 lg x" for len lg x
    using assms by (intro zc_off_eq_send_loop) simp
  obtain k lg a' where r: "send_loop tr (NUM_FIELDS * (msg_size args div NUM_FIELDS)) n 0 []
             (args\<lparr>bytes_sent := 0, messages_sent := 0\<rparr>) = (k, lg, a')"
    by (metis prod_cases3)
  from send_loop_calls[OF r] have
    shape: "\<forall>it \<in> set lg. \<exists>r. it = [(NOFLAGS, NUM_FIELDS * (msg_size args div NUM_FIELDS), r)]"
    by simp
  show ?thesis
    using shape by (simp add: A3_handle_client_ok[OF True] A2_handle_client_ok[OF True] eq r)
qed

theorem fallback_mode_is_scatter_gather_witness:
  "A3_handle_client False (\<lambda>k. True) (\<lambda>k. Ret 1024) (Suc (Suc 0)) 2 [] (server_slot 1024)
     = A2_handle_client (\<lambda>k. True) (\<lambda>k. Ret 1024) (Suc (Suc 0)) 2 [] (server_slot 1024) \<and>
   A2_handle_client (\<lambda>k. True) (\<lambda>k. Ret 1024) (Suc (Suc 0)) 2 [] (server_slot 1024)
     = ([[(NOFLAGS, 1024, Ret 1024)], [(NOFLAGS, 1024, Ret 1024)]],
        \<lparr>msg_size = 1024, bytes_sent = 2048, messages_sent = 2, elapsed_time = 2\<rparr>)"
proof -
  have h: "\<forall>i<Suc (Suc 0). (\<lambda>k. Ret 1024) i \<noteq> Fail EAGAIN" by simp
  have e: "A2_handle_client (\<lambda>k. True) (\<lambda>k. Ret 1024) (Suc (Suc 0)) 2 [] (server_slot 1024)
     = ([[(NOFLAGS, 1024, Ret 1024)], [(NOFLAGS, 1024, Ret 1024)]],
        \<lparr>msg_size = 1024, bytes_sent = 2048, messages_sent = 2, elapsed_time = 2\<rparr>)"
    by (simp add: A2_handle_client_ok all_allocated_True server_slot_def unit_1024)
  from fallback_mode_is_scatter_gather[OF h, of "\<lambda>k. True" 2 "[]" "server_slot 1024"] e
  show ?thesis by simp
qed

text \<open>
  C7 as stated fails: the zero-copy server goes on after \<^verbatim>\<open>EAGAIN\<close>, the
  scatter/gather server leaves its loop.
\<close>

theorem fallback_mode_counterexample:
  "A3_handle_client False (\<lambda>k. True) (\<lambda>k. if k = 0 then Fail EAGAIN else Ret 1024)
       (Suc (Suc 0)) 2 [] (server_slot 1024)
     = ([[(NOFLAGS, 1024, Fail EAGAIN)], [(NOFLAGS, 1024, Ret 1024)]],
        \<lparr>msg_size = 1024, bytes_sent = 1024, messages_sent = 1, elapsed_time = 2\<rparr>) \<and>
   A2_handle_client (\<lambda>k. True) (\<lambda>k. if k = 0 then Fail EAGAIN else Ret 1024)
       (Suc (Suc 0)) 2 [] (server_slot 1024)
     = ([[(NOFLAGS, 1024, Fail EAGAIN)]],
        \<lparr>msg_size = 1024, bytes_sent = 0, messages_sent = 0, elapsed_time = 2\<rparr>) \<and>
   A3_handle_client False (\<lambda>k. True) (\<lambda>k. if k = 0 then Fail EAGAIN else Ret 1024)
       (Suc (Suc 0)) 2 [] (server_slot 1024)
     \<noteq> A2_handle_client (\<lambda>k. True) (\<lambda>k. if k = 0 then Fail EAGAIN else Ret 1024)
       (Suc (Suc 0)) 2 [] (server_slot 1024)"
  by (simp add: A3_handle_client_ok A2_handle_client_ok all_allocated_True server_slot_def
      unit_1024 zc_send_def EWOULDBLOCK_def)

section \<open>Interrupted calls\<close>

lemma recv_eintr_retried:
  "tr k = Fail EINTR \<Longrightarrow>
   recv_loop tr lat len (Suc n) k lg args
     = recv_loop tr lat len n (Suc k) (lg @ [[(NOFLAGS, len, Fail EINTR)]]) args"
  by simp

lemma send_failure_ends_loop:
  "tr k = Fail e \<Longrightarrow>
   send_loop tr len (Suc n) k lg args = (Suc k, lg @ [[(NOFLAGS, len, Fail e)]], args)"
  by simp

text \<open>
  C3. The receive loops go on after \<^verbatim>\<open>EINTR\<close>, the send loops do not: when the first
  send fails with \<^verbatim>\<open>EINTR\<close>, each of the three servers leaves its loop after that one
  call, with a budget of three iterations and data ready to go, while the client on the
  same transport retries and receives twice.
\<close>

theorem send_eintr_ends_worker_loop:
  "A1_handle_client (\<lambda>k. True) True (\<lambda>k. if k = 0 then Fail EINTR else Ret 1024)
       (Suc (Suc (Suc 0))) 2 [] (server_slot 1024)
     = ([[(NOFLAGS, 1024, Fail EINTR)]],
        \<lparr>msg_size = 1024, bytes_sent = 0, messages_sent = 0, elapsed_time = 2\<rparr>) \<and>
   A2_handle_client (\<lambda>k. True) (\<lambda>k. if k = 0 then Fail EINTR else Ret 1024)
       (Suc (Suc (Suc 0))) 2 [] (server_slot 1024)
     = ([[(NOFLAGS, 1024, Fail EINTR)]],
        \<lparr>msg_size = 1024, bytes_sent = 0, messages_sent = 0, elapsed_time = 2\<rparr>) \<and>
   A3_handle_client True (\<lambda>k. True) (\<lambda>k. if k = 0 then Fail EINTR else Ret 1024)
       (Suc (Suc (Suc 0))) 2 [] (server_slot 1024)
     = ([[(MSG_ZEROCOPY, 1024, Fail EINTR)]],
        \<lparr>msg_size = 1024, bytes_sent = 0, messages_sent = 0, elapsed_time = 2\<rparr>) \<and>
   A3_handle_client False (\<lambda>k. True) (\<lambda>k. if k = 0 then Fail EINTR else Ret 1024)
       (Suc (Suc (Suc 0))) 2 [] (server_slot 1024)
     = ([[(NOFLAGS, 1024, Fail EINTR)]],
        \<lparr>msg_size = 1024, bytes_sent = 0, messages_sent = 0, elapsed_time = 2\<rparr>) \<and>
   fst (A1_client_thread Ready (\<lambda>k. if k = 0 then Fail EINTR else Ret 1024) (\<lambda>k. 1)
       (Suc (Suc (Suc 0))) 2 (client_slot 1024) no_metrics)
     = [[(NOFLAGS, 1024, Fail EINTR)], [(NOFLAGS, 1024, Ret 1024)], [(NOFLAGS, 1024, Ret 1024)]]"
  by (simp add: A1_handle_client_ok A2_handle_client_ok A3_handle_client_ok all_allocated_True
      server_slot_def unit_1024 zc_send_def EWOULDBLOCK_def
      A1_client_thread_def client_thread_body_def client_slot_def no_metrics_def Let_def)

section \<open>Workers that fail before their loop\<close>

lemma failed_client_worker_contributes_nothing:
  "st \<noteq> Ready \<Longrightarrow> run_client (st, tr, lat, n, el, args) g = g"
  by (simp add: run_client_def A1_client_thread_def client_thread_body_def)

text \<open>
  C5. A server worker whose message or serialization allocation fails leaves its slot of
  \<^verbatim>\<open>thread_args\<close> unwritten, and \<^verbatim>\<open>main\<close> adds the slot all the same: with a slot
  whose indeterminate content reads as 7 bytes, 3 messages and 9 seconds, the totals of a
  run with this one failed worker are (7, 3, 9) and not (0, 0, 0). A worker that reaches
  its loop overwrites the slot.
\<close>

theorem failed_server_worker_is_counted:
  "A1_server_main 1024
     [(\<lparr>msg_size = 0, bytes_sent = 7, messages_sent = 3, elapsed_time = 9\<rparr>,
       (\<lambda>k. k \<noteq> 4), True, (\<lambda>k. Ret 1024), Suc (Suc 0), 2)] = (7, 3, 9) \<and>
   A1_server_main 1024
     [(\<lparr>msg_size = 0, bytes_sent = 7, messages_sent = 3, elapsed_time = 9\<rparr>,
       (\<lambda>k. True), False, (\<lambda>k. Ret 1024), Suc (Suc 0), 2)] = (7, 3, 9) \<and>
   A1_server_main 1024
     [(\<lparr>msg_size = 0, bytes_sent = 7, messages_sent = 3, elapsed_time = 9\<rparr>,
       (\<lambda>k. True), True, (\<lambda>k. Ret 1024), Suc (Suc 0), 2)] = (2048, 2, 2)"
proof -
  have f: "\<not> all_allocated (\<lambda>k. k \<noteq> 4)" by (simp add: all_allocated_def)
  show ?thesis
    by (simp add: A1_server_main_def A1_handle_client_fail f A1_handle_client_ok
        all_allocated_True unit_1024)
qed

section \<open>The unit sent and the unit asked for\<close>

lemma trunc8: "8 * (m div 8) \<le> (m::nat)"
  by simp

text \<open>
  C9. For a configured message size \<open>m\<close> (a \<^verbatim>\<open>size_t\<close>), every send of the three
  servers asks for \<open>8 * (m div 8)\<close> bytes, every receive of the copy-based client asks for
  \<open>m\<close> bytes, and the first is strictly smaller whenever 8 does not divide \<open>m\<close>.
\<close>

theorem sender_receiver_unit_mismatch:
  assumes "m < SIZE_MOD"
  shows
    "(\<forall>it \<in> set (fst (A1_handle_client a sa tr n el h (sargs\<lparr>msg_size := m\<rparr>))).
        \<forall>c \<in> set it. fst (snd c) = 8 * (m div 8)) \<and>
     (\<forall>it \<in> set (fst (A2_handle_client a tr n el h (sargs\<lparr>msg_size := m\<rparr>))).
        \<forall>c \<in> set it. fst (snd c) = 8 * (m div 8)) \<and>
     (\<forall>it \<in> set (fst (A3_handle_client z a tr n el h (sargs\<lparr>msg_size := m\<rparr>))).
        \<forall>c \<in> set it. fst (snd c) = 8 * (m div 8)) \<and>
     (\<forall>it \<in> set (fst (A1_client_thread st tr' lat n' el' (cargs\<lparr>cl_msg_size := m\<rparr>) g)).
        \<forall>c \<in> set it. fst (snd c) = m) \<and>
     (\<not> 8 dvd m \<longrightarrow> 8 * (m div 8) < m)"
proof (intro conjI)
  have small: "(NUM_FIELDS * (m div NUM_FIELDS)) mod SIZE_MOD = 8 * (m div 8)"
    using assms trunc8[of m] by (simp add: NUM_FIELDS_def)
  have n8: "NUM_FIELDS * (m div NUM_FIELDS) = 8 * (m div 8)"
    by (simp add: NUM_FIELDS_def)
  show "\<forall>it \<in> set (fst (A1_handle_client a sa tr n el h (sargs\<lparr>msg_size := m\<rparr>))).
        \<forall>c \<in> set it. fst (snd c) = 8 * (m div 8)"
  proof (cases "all_allocated a \<and> sa")
    case False
    then show ?thesis by (simp add: A1_handle_client_fail)
  next
    case True
    obtain k lg a' where r: "send_loop tr (8 * (m div 8)) n 0 []
             (sargs\<lparr>msg_size := m, bytes_sent := 0, messages_sent := 0\<rparr>) = (k, lg, a')"
      by (metis prod_cases3)
    from send_loop_calls[OF r] have "\<forall>it \<in> set lg. \<forall>c \<in> set it. fst (snd c) = 8 * (m div 8)"
      by auto
    with True show ?thesis by (simp add: A1_handle_client_ok small r)
  qed
  show "\<forall>it \<in> set (fst (A2_handle_client a tr n el h (sargs\<lparr>msg_size := m\<rparr>))).
        \<forall>c \<in> set it. fst (snd c) = 8 * (m div 8)"
  proof (cases "all_allocated a")
    case False
    then show ?thesis by (simp add: A2_handle_client_fail)
  next
    case True
    obtain k lg a' where r: "send_loop tr (8 * (m div 8)) n 0 []
             (sargs\<lparr>msg_size := m, bytes_sent := 0, messages_sent := 0\<rparr>) = (k, lg, a')"
      by (metis prod_cases3)
    from send_loop_calls[OF r] have "\<forall>it \<in> set lg. \<forall>c \<in> set it. fst (snd c) = 8 * (m div 8)"
      by auto
    with True show ?thesis by (simp add: A2_handle_client_ok n8 r)
  qed
  show "\<forall>it \<in> set (fst (A3_handle_client z a tr n el h (sargs\<lparr>msg_size := m\<rparr>))).
        \<forall>c \<in> set it. fst (snd c) = 8 * (m div 8)"
  proof (cases "all_allocated a")
    case False
    then show ?thesis by (simp add: A3_handle_client_fail)
  next
    case True
    obtain k lg a' where r: "zc_send_loop z tr (8 * (m div 8)) n 0 []
             (sargs\<lparr>msg_size := m, bytes_sent := 0, messages_sent := 0\<rparr>) = (k, lg, a')"
      by (metis prod_cases3)
    have shape: "fst (snd c) = len" if "offload_iteration len it" "c \<in> set it" for len it c
      using that by (induction len it rule: offload_iteration.induct) auto
    from zc_send_loop_calls[OF r] have "\<forall>it \<in> set lg. \<forall>c \<in> set it. fst (snd c) = 8 * (m div 8)"
      by (cases z) (auto dest: shape)
    with True show ?thesis by (simp add: A3_handle_client_ok n8 r)
  qed
  show "\<forall>it \<in> set (fst (A1_client_thread st tr' lat n' el' (cargs\<lparr>cl_msg_size := m\<rparr>) g)).
        \<forall>c \<in> set it. fst (snd c) = m"
  proof (cases "st = Ready")
    case False
    then show ?thesis by (simp add: A1_client_thread_def client_thread_body_def)
  next
    case True
    obtain k lg a' where r: "recv_loop tr' lat m n' 0 []
        (cargs\<lparr>cl_msg_size := m, bytes_received := 0, messages_received := 0, total_latency := 0\<rparr>)
        = (k, lg, a')"
      by (metis prod_cases3)
    from recv_loop_calls[OF r] have "\<forall>it \<in> set lg. \<forall>c \<in> set it. fst (snd c) = m"
      by auto
    with True show ?thesis
      by (simp add: A1_client_thread_def client_thread_body_def r Let_def)
  qed
  show "\<not> 8 dvd m \<longrightarrow> 8 * (m div 8) < m"
    by presburger
qed

theorem sender_receiver_unit_mismatch_witness:
  "fst (A1_handle_client (\<lambda>k. True) True (\<lambda>k. Ret 1024) (Suc 0) 2 [] (server_slot 1030))
     = [[(NOFLAGS, 1024, Ret 1024)]] \<and>
   fst (A1_client_thread Ready (\<lambda>k. Ret 1024) (\<lambda>k. 1) (Suc 0) 2 (client_slot 1030) no_metrics)
     = [[(NOFLAGS, 1030, Ret 1024)]] \<and>
   \<not> 8 dvd (1030::nat) \<and> (8::nat) * (1030 div 8) < 1030"
proof -
  have m: "(1030::nat) < SIZE_MOD" by (simp add: SIZE_MOD_def)
  have u: "(NUM_FIELDS * (1030 div NUM_FIELDS)) mod SIZE_MOD = 1024"
    by (simp add: NUM_FIELDS_def SIZE_MOD_def)
  have nd: "\<not> 8 dvd (1030::nat)" by presburger
  from sender_receiver_unit_mismatch[OF m] nd show ?thesis
    by (simp add: A1_handle_client_ok all_allocated_True server_slot_def u
        A1_client_thread_def client_thread_body_def client_slot_def no_metrics_def Let_def)
qed

section \<open>The client's average latency\<close>

lemma run_client_avg:
  "avg_latency_us (run_client w g) = avg_latency_us g + worker_mean w"
proof -
  obtain st tr lat n el args where w: "w = (st, tr, lat, n, el, args)"
    by (metis prod_cases6)
  show ?thesis
  proof (cases "st = Ready")
    case False
    then show ?thesis
      by (simp add: w run_client_def worker_mean_def A1_client_thread_def client_thread_body_def)
  next
    case True
    obtain k lg a1 where r: "recv_loop tr lat (cl_msg_size args) n 0 []
        (args\<lparr>bytes_received := 0, messages_received := 0, total_latency := 0\<rparr>) = (k, lg, a1)"
      by (metis prod_cases3)
    show ?thesis
      using True
      by (simp add: w run_client_def worker_mean_def A1_client_thread_def client_thread_body_def
          r Let_def word_gt_0)
  qed
qed

lemma foldl_run_client_avg:
  "avg_latency_us (foldl (\<lambda>g i. run_client (ws ! i) g) g order)
     = avg_latency_us g + sum_list (map (\<lambda>i. worker_mean (ws ! i)) order)"
  by (induction order arbitrary: g) (simp_all add: run_client_avg)

lemma sum_over_completion_order:
  fixes f :: "'a \<Rightarrow> real"
  assumes "distinct order" "set order = {..<length ws}"
  shows "sum_list (map (\<lambda>i. f (ws ! i)) order) = sum_list (map f ws)"
proof -
  have "sum_list (map (\<lambda>i. f (ws ! i)) order) = sum (\<lambda>i. f (ws ! i)) (set order)"
    using assms(1) by (rule sum_list_distinct_conv_sum_set)
  also have "\<dots> = sum (\<lambda>i. f (ws ! i)) {0..<length ws}"
    using assms(2) by (simp add: lessThan_atLeast0)
  also have "\<dots> = sum_list (map f ws)"
    by (simp add: sum_list_sum_nth)
  finally show ?thesis .
qed

text \<open>
  C1. With at least one thread created, and whatever the order in which the workers take
  the mutex, the average latency the client reports is the sum of the per-worker means
  (total latency over messages received, 0 for a worker that received none) divided by the
  number of threads created.
\<close>

theorem client_average_latency_is_mean_of_means:
  assumes "ws \<noteq> []" and "distinct order" and "set order = {..<length ws}"
  shows "avg_latency_us (A1_client_main ws order)
           = sum_list (map worker_mean ws) / real (length ws)"
proof -
  have "avg_latency_us (A1_client_main ws order)
          = sum_list (map (\<lambda>i. worker_mean (ws ! i)) order) / real (length ws)"
    by (simp add: A1_client_main_def Let_def foldl_run_client_avg)
  then show ?thesis
    by (simp only: sum_over_completion_order[OF assms(2,3)])
qed

theorem client_average_latency_is_mean_of_means_witness:
  "avg_latency_us
     (A1_client_main
        [(Ready, (\<lambda>k. Ret 1024), (\<lambda>k. 4), Suc 0, 2, client_slot 1024),
         (Ready, (\<lambda>k. Ret 1024), (\<lambda>k. 10), Suc (Suc 0), 2, client_slot 1024),
         (ConnectFailed, (\<lambda>k. Ret 1024), (\<lambda>k. 10), Suc (Suc 0), 2, client_slot 1024)]
        [1, 2, 0]) = (4 + 10 + 0) / 3"
proof -
  have w1: "worker_mean (Ready, (\<lambda>k. Ret 1024), (\<lambda>k. 4), Suc 0, 2, client_slot 1024) = 4"
    by (simp add: worker_mean_def client_slot_def)
  have w2: "worker_mean (Ready, (\<lambda>k. Ret 1024), (\<lambda>k. 10), Suc (Suc 0), 2, client_slot 1024) = 10"
    by (simp add: worker_mean_def client_slot_def)
  have w3: "worker_mean (ConnectFailed, (\<lambda>k. Ret 1024), (\<lambda>k. 10), Suc (Suc 0), 2, client_slot 1024) = 0"
    by (simp add: worker_mean_def)
  have d: "distinct [1, 2, 0::nat]" by simp
  have s: "set [1, 2, 0::nat] = {..<length
        [(Ready, (\<lambda>k. Ret 1024), (\<lambda>k. 4::real), Suc 0, 2::real, client_slot 1024),
         (Ready, (\<lambda>k. Ret 1024), (\<lambda>k. 10), Suc (Suc 0), 2, client_slot 1024),
         (ConnectFailed, (\<lambda>k. Ret 1024), (\<lambda>k. 10), Suc (Suc 0), 2, client_slot 1024)]}"
    by auto
  have ne: "[(Ready, (\<lambda>k. Ret 1024), (\<lambda>k. 4::real), Suc 0, 2::real, client_slot 1024),
         (Ready, (\<lambda>k. Ret 1024), (\<lambda>k. 10), Suc (Suc 0), 2, client_slot 1024),
         (ConnectFailed, (\<lambda>k. Ret 1024), (\<lambda>k. 10), Suc (Suc 0), 2, client_slot 1024)] \<noteq> []"
    by simp
  from client_average_latency_is_mean_of_means[OF ne d s] show ?thesis
    by (simp add: w1 w2 w3)
qed

end
